theory Spec2Isabelle
  imports Complex_Main "HOL-Library.Multiset"
begin

section \<open>Exceptions\<close>

text \<open>
  Every exception that the modelled Python code can raise is a value. The string carried by
  \<open>RuntimeError\<close> is the message.
\<close>

datatype error = IndexError | ValueError | AttributeError | RuntimeError string

section \<open>Random sources\<close>

text \<open>
  The module uses three generators: numpy's global one (\<open>np.random.choice\<close>), Python's global
  one (\<open>random.shuffle\<close>) and the module-level \<open>rnd = random.Random(0)\<close>. A generator is the
  sequence of raw draws it still has to deliver; reading past the end keeps delivering 0.
  Every behaviour of a real generator is the behaviour of some tape. The generator \<open>rnd\<close> is
  read on line 451 only, which is not reached with a tensorizer that returns tuples (see
  \<open>select_span_with_token\<close> below).
\<close>

type_synonym tape = "int list"

fun next_draw :: "tape \<Rightarrow> int \<times> tape" where
  "next_draw [] = (0, [])"
| "next_draw (d # ds) = (d, ds)"

definition randbelow :: "nat \<Rightarrow> tape \<Rightarrow> nat \<times> tape" where
  \<comment> \<open>An index below \<open>n\<close>, cut out of the next raw draw.\<close>
  "randbelow n t = (case next_draw t of (d, t') \<Rightarrow> (nat (d mod int n), t'))"

record rng =
  np_random :: tape
  py_random :: tape
  rnd :: tape

definition np_random_choice :: "nat \<Rightarrow> rng \<Rightarrow> (error + nat) \<times> rng" where
  \<comment> \<open>\<open>np.random.choice(n)\<close>: an index below \<open>n\<close>; \<open>ValueError\<close> when \<open>n = 0\<close>.\<close>
  "np_random_choice n g =
     (if n = 0 then (Inl ValueError, g)
      else (case randbelow n (np_random g) of
              (k, t) \<Rightarrow> (Inr k, g\<lparr>np_random := t\<rparr>)))"

fun shuffle_from :: "nat \<Rightarrow> 'a list \<Rightarrow> tape \<Rightarrow> 'a list \<times> tape" where
  \<comment> \<open>The loop of \<open>random.shuffle\<close>:
      \<open>for i in reversed(range(1, len(x))): j = randbelow(i + 1); x[i], x[j] = x[j], x[i]\<close>,
      from index \<open>i\<close> downwards.\<close>
  "shuffle_from 0 xs t = (xs, t)"
| "shuffle_from (Suc i) xs t =
     (case randbelow (Suc i + 1) t of
        (j, t') \<Rightarrow> shuffle_from i (xs[Suc i := xs ! j, j := xs ! Suc i]) t')"

definition random_shuffle :: "'a list \<Rightarrow> rng \<Rightarrow> 'a list \<times> rng" where
  "random_shuffle xs g =
     (case shuffle_from (length xs - 1) xs (py_random g) of
        (ys, t) \<Rightarrow> (ys, g\<lparr>py_random := t\<rparr>))"

section \<open>Python slices\<close>

definition py_slice_to :: "'a list \<Rightarrow> int \<Rightarrow> 'a list" where
  \<comment> \<open>\<open>xs[0:n]\<close>; a negative \<open>n\<close> counts from the end.\<close>
  "py_slice_to xs n =
     (if 0 \<le> n then take (nat n) xs else take (length xs - nat (- n)) xs)"

section \<open>Samples, tensors and the tensorizer\<close>

text \<open>
  \<open>BiEncoderSample\<close> and its passages are declared outside the files at hand; the fields are
  the attributes that \<open>create_biencoder_input\<close> reads. The query object is read through the
  same attributes (\<open>text\<close>, \<open>entities\<close>, \<open>entity_spans\<close>) as a passage. The attribute \<open>text\<close>
  is the field \<open>ptext\<close>.
\<close>

record passage =
  ptext :: string
  title :: "string option"
  entities :: "string list option"
  entity_spans :: "(nat \<times> nat) list option"

record sample =
  query :: passage
  positive_passages :: "passage list"
  negative_passages :: "passage list"
  hard_negative_passages :: "passage list"

text \<open>A tensor of integers: its shape and its elements in row-major order.\<close>

datatype tensor = Tensor (shape: "nat list") (elems: "int list")

text \<open>
  The tensorizer is a collaborator of the batch assembler. \<open>text_to_tensor\<close> takes the text,
  the title, the entities, the entity spans and \<open>apply_max_len\<close>, and returns the token ids,
  the entity ids and the entity position ids. \<open>get_max_mention_length\<close> is \<open>None\<close> when the
  tensorizer has no such attribute.
\<close>

record tensorizer =
  text_to_tensor :: "string \<Rightarrow> string option \<Rightarrow> string list option
                       \<Rightarrow> (nat \<times> nat) list option \<Rightarrow> bool \<Rightarrow> tensor \<times> tensor \<times> tensor"
  get_token_id :: "string \<Rightarrow> int"
  get_pad_id :: int
  get_max_mention_length :: "nat option"
  max_length :: nat
  cls_token_id :: int
  sep_token_id :: int

record BiEncoderBatch =
  question_ids :: tensor
  question_segments :: tensor
  question_entity_ids :: tensor
  question_entity_position_ids :: tensor
  question_entity_segments :: tensor
  context_ids :: tensor
  ctx_segments :: tensor
  ctx_entity_ids :: tensor
  ctx_entity_position_ids :: tensor
  ctx_entity_segments :: tensor
  is_positive :: "nat list"
  hard_negatives :: "nat list list"
  encoder_type :: string

subsection \<open>The tensor operations of the assembler\<close>

definition view_row :: "tensor \<Rightarrow> tensor" where
  \<comment> \<open>\<open>t.view(1, -1)\<close>: the size \<open>-1\<close> is the number of elements divided by the product of
      the given sizes, here 1; it is refused only when that product is 0.\<close>
  "view_row t = Tensor [1, length (elems t)] (elems t)"

definition view_mentions :: "nat \<Rightarrow> tensor \<Rightarrow> error + tensor" where
  \<comment> \<open>\<open>t.view(1, -1, L)\<close>: the number of elements has to be a multiple of \<open>L\<close>.\<close>
  "view_mentions L t =
     (if L = 0 then Inl (RuntimeError ''view'')
      else if length (elems t) mod L = 0
        then Inr (Tensor [1, length (elems t) div L, L] (elems t))
        else Inl (RuntimeError ''view''))"

fun view_all_mentions :: "nat \<Rightarrow> tensor list \<Rightarrow> error + tensor list" where
  "view_all_mentions L [] = Inr []"
| "view_all_mentions L (t # ts) =
     (case view_mentions L t of
        Inl e \<Rightarrow> Inl e
      | Inr v \<Rightarrow> (case view_all_mentions L ts of Inl e \<Rightarrow> Inl e | Inr vs \<Rightarrow> Inr (v # vs)))"

definition torch_cat :: "tensor list \<Rightarrow> error + tensor" where
  \<comment> \<open>\<open>torch.cat(ts, dim=0)\<close>: an empty list is refused, tensors of shape \<open>[0]\<close> are skipped,
      and the other tensors have to agree in every dimension but the first.\<close>
  "torch_cat ts =
     (if ts = [] then Inl (RuntimeError ''torch.cat'')
      else (case filter (\<lambda>t. shape t \<noteq> [0]) ts of
              [] \<Rightarrow> Inr (Tensor [0] [])
            | u # us \<Rightarrow>
                (case shape u of
                   [] \<Rightarrow> Inl (RuntimeError ''torch.cat'')
                 | n # ds \<Rightarrow>
                     if list_all (\<lambda>t. length (shape t) = Suc (length ds) \<and> tl (shape t) = ds) us
                     then Inr (Tensor (sum_list (map (\<lambda>t. hd (shape t)) (u # us)) # ds)
                                      (concat (map elems (u # us))))
                     else Inl (RuntimeError ''torch.cat''))))"

definition zeros_like :: "tensor \<Rightarrow> tensor" where
  "zeros_like t = Tensor (shape t) (replicate (length (elems t)) 0)"

section \<open>Span selection around a marker token\<close>

text \<open>
  \<open>_select_span_with_token\<close> applies \<open>in\<close> and \<open>==\<close> to the value that \<open>text_to_tensor\<close>
  returns. That value is the tuple of three tensors which lines 254, 286 and 291 unpack, so
  the operators are those of a Python tuple:
  \<^item> \<open>id not in query_tensor\<close> (line 443) compares the members of the tuple with \<open>id\<close> one
    after the other and takes the truth value of each comparison \<open>t == id\<close>, which is a tensor
    of booleans; the truth value of a tensor exists only when it has exactly one element;
  \<^item> \<open>query_tensor_full == id\<close> (line 445) compares a tuple with an integer and is the
    Python value \<open>False\<close>, which has no attribute \<open>nonzero\<close>. Lines 446 to 468 are therefore
    never reached.
\<close>

definition tensor_equals :: "tensor \<Rightarrow> int \<Rightarrow> error + bool" where
  \<comment> \<open>The truth value of \<open>t == x\<close> for a tensor \<open>t\<close> and an integer \<open>x\<close>.\<close>
  "tensor_equals t x =
     (case elems t of
        [] \<Rightarrow> Inl (RuntimeError ''Boolean value of Tensor with no values is ambiguous'')
      | [v] \<Rightarrow> Inr (v = x)
      | _ # _ # _ \<Rightarrow>
          Inl (RuntimeError ''Boolean value of Tensor with more than one value is ambiguous''))"

fun tuple_contains :: "tensor list \<Rightarrow> int \<Rightarrow> error + bool" where
  \<comment> \<open>\<open>x in ts\<close> for a tuple \<open>ts\<close> of tensors.\<close>
  "tuple_contains [] x = Inr False"
| "tuple_contains (t # ts) x =
     (case tensor_equals t x of
        Inl e \<Rightarrow> Inl e
      | Inr b \<Rightarrow> if b then Inr True else tuple_contains ts x)"

definition not_found_message :: string where
  \<comment> \<open>The message of the \<open>RuntimeError\<close> of line 468, without the query text.\<close>
  "not_found_message = ''[START_ENT] toke not found for Entity Linking sample query=''"

definition select_span_with_token ::
  "string \<Rightarrow> tensorizer \<Rightarrow> string \<Rightarrow> rng
     \<Rightarrow> (error + tensor \<times> tensor \<times> tensor) \<times> rng" where
  \<comment> \<open>Lines 440 to 445 and 470. When the tuple holds \<open>id\<close> the tuple itself is returned; when
      it does not, the untruncated text is tensorized (line 444) and line 445 raises.\<close>
  "select_span_with_token txt tz token_str g =
     (let tid = get_token_id tz token_str;
          query_tensor = text_to_tensor tz txt None None None True
      in case tuple_contains
                [fst query_tensor, fst (snd query_tensor), snd (snd query_tensor)] tid of
           Inl e \<Rightarrow> (Inl e, g)
         | Inr found \<Rightarrow>
             if found then (Inr query_tensor, g)
             else (let query_tensor_full = text_to_tensor tz txt None None None False
                   in (Inl AttributeError, g)))"

section \<open>The batch assembler\<close>

text \<open>
  The lists that \<open>create_biencoder_input\<close> fills while it walks over the samples. A member
  of \<open>question_tensors\<close> is a tensor or, in span-selection mode, the tuple that
  \<open>_select_span_with_token\<close> hands back.
\<close>

datatype py_value = PyTensor tensor | PyTuple "tensor \<times> tensor \<times> tensor"

record acc =
  question_tensors :: "py_value list"
  question_entity_tensors :: "tensor list"
  question_entity_position_ids_acc :: "tensor list"
  ctx_tensors :: "tensor list"
  ctx_entity_tensors :: "tensor list"
  ctxs_entity_position_ids :: "tensor list"
  positive_ctx_indices :: "nat list"
  hard_neg_ctx_indices :: "nat list list"

definition empty_acc :: acc where
  "empty_acc = \<lparr>question_tensors = [], question_entity_tensors = [],
                question_entity_position_ids_acc = [], ctx_tensors = [],
                ctx_entity_tensors = [], ctxs_entity_position_ids = [],
                positive_ctx_indices = [], hard_neg_ctx_indices = []\<rparr>"

definition select_positive :: "sample \<Rightarrow> bool \<Rightarrow> bool \<Rightarrow> rng \<Rightarrow> (error + passage) \<times> rng" where
  \<comment> \<open>Lines 222 to 226.\<close>
  "select_positive s shuffle shuffle_positives g =
     (if shuffle \<and> shuffle_positives then
        (case np_random_choice (length (positive_passages s)) g of
           (Inl e, g') \<Rightarrow> (Inl e, g')
         | (Inr k, g') \<Rightarrow> (Inr (positive_passages s ! k), g'))
      else (case positive_passages s of
              [] \<Rightarrow> (Inl IndexError, g)
            | p # _ \<Rightarrow> (Inr p, g)))"

definition sample_ctxs ::
  "sample \<Rightarrow> int \<Rightarrow> int \<Rightarrow> bool \<Rightarrow> bool \<Rightarrow> bool \<Rightarrow> rng
     \<Rightarrow> (error + passage \<times> passage list \<times> passage list) \<times> sample \<times> rng" where
  \<comment> \<open>Lines 222 to 241: the positive, the other negatives and the hard negatives of one
      sample. The shuffles work in place, so the sample is returned as the call leaves it.\<close>
  "sample_ctxs s num_hard_negatives num_other_negatives shuffle shuffle_positives
               hard_neg_fallback g =
     (case select_positive s shuffle shuffle_positives g of
        (Inl e, g1) \<Rightarrow> (Inl e, s, g1)
      | (Inr positive_ctx, g1) \<Rightarrow>
          (case (if shuffle then random_shuffle (negative_passages s) g1
                 else (negative_passages s, g1)) of
             (neg_pool, g2) \<Rightarrow>
               (case (if shuffle then random_shuffle (hard_negative_passages s) g2
                      else (hard_negative_passages s, g2)) of
                  (hard_pool, g3) \<Rightarrow>
                    (let hard_neg_ctxs0 =
                           (if hard_neg_fallback \<and> length hard_pool = 0
                            then py_slice_to neg_pool num_hard_negatives else hard_pool);
                         neg_ctxs = py_slice_to neg_pool num_other_negatives;
                         hard_neg_ctxs = py_slice_to hard_neg_ctxs0 num_hard_negatives
                     in (Inr (positive_ctx, neg_ctxs, hard_neg_ctxs),
                         s\<lparr>negative_passages := neg_pool, hard_negative_passages := hard_pool\<rparr>,
                         g3)))))"

definition ctx_to_tensor :: "tensorizer \<Rightarrow> bool \<Rightarrow> passage \<Rightarrow> tensor \<times> tensor \<times> tensor" where
  \<comment> \<open>Lines 254 to 259; the title is passed on when \<open>insert_title\<close> holds and the title is
      neither \<open>None\<close> nor empty.\<close>
  "ctx_to_tensor tz insert_title ctx =
     text_to_tensor tz (ptext ctx)
       (if insert_title \<and> title ctx \<noteq> None \<and> title ctx \<noteq> Some [] then title ctx else None)
       (entities ctx) (entity_spans ctx) True"

definition append_question :: "acc \<Rightarrow> tensor \<times> tensor \<times> tensor \<Rightarrow> acc" where
  "append_question a tr =
     a\<lparr>question_tensors := question_tensors a @ [PyTensor (fst tr)],
       question_entity_tensors := question_entity_tensors a @ [fst (snd tr)],
       question_entity_position_ids_acc :=
         question_entity_position_ids_acc a @ [snd (snd tr)]\<rparr>"

definition encode_question ::
  "passage \<Rightarrow> tensorizer \<Rightarrow> string option \<Rightarrow> acc \<Rightarrow> rng \<Rightarrow> (error + acc) \<times> rng" where
  \<comment> \<open>Lines 280 to 294.\<close>
  "encode_question question tz query_token a g =
     (case query_token of
        None \<Rightarrow>
          (Inr (append_question a
                  (text_to_tensor tz (ptext question) None (entities question)
                     (entity_spans question) True)), g)
      | Some tok \<Rightarrow>
          if tok = [] then
            (Inr (append_question a
                    (text_to_tensor tz (ptext question) None (entities question)
                       (entity_spans question) True)), g)
          else if tok = ''[START_ENT]'' then
            (case select_span_with_token (ptext question) tz tok g of
               (Inl e, g') \<Rightarrow> (Inl e, g')
             | (Inr query_span, g') \<Rightarrow>
                 (Inr (a\<lparr>question_tensors := question_tensors a @ [PyTuple query_span]\<rparr>),
                  g'))
          else
            (Inr (append_question a
                    (text_to_tensor tz (tok @ '' '' @ ptext question) None (entities question)
                       (entity_spans question) True)), g))"

definition append_ctxs ::
  "tensorizer \<Rightarrow> bool \<Rightarrow> acc \<Rightarrow> passage \<Rightarrow> passage list \<Rightarrow> passage list \<Rightarrow> acc" where
  \<comment> \<open>Lines 243 to 278: the passages of one sample are tensorized and appended, and the
      index of the positive and the indices of the hard negatives are recorded.\<close>
  "append_ctxs tz insert_title a positive_ctx neg_ctxs hard_neg_ctxs =
     (let all_ctxs = [positive_ctx] @ neg_ctxs @ hard_neg_ctxs;
          hard_negatives_start_idx = 1;
          hard_negatives_end_idx = 1 + length hard_neg_ctxs;
          current_ctxs_len = length (ctx_tensors a);
          sample_ctxs_tensors = map (ctx_to_tensor tz insert_title) all_ctxs
      in a\<lparr>ctx_tensors := ctx_tensors a @ map fst sample_ctxs_tensors,
           ctx_entity_tensors :=
             ctx_entity_tensors a @ map (\<lambda>tr. fst (snd tr)) sample_ctxs_tensors,
           ctxs_entity_position_ids :=
             ctxs_entity_position_ids a @ map (\<lambda>tr. snd (snd tr)) sample_ctxs_tensors,
           positive_ctx_indices := positive_ctx_indices a @ [current_ctxs_len],
           hard_neg_ctx_indices :=
             hard_neg_ctx_indices a
               @ [[current_ctxs_len + hard_negatives_start_idx ..<
                   current_ctxs_len + hard_negatives_end_idx]]\<rparr>)"

definition process_sample ::
  "tensorizer \<Rightarrow> bool \<Rightarrow> int \<Rightarrow> int \<Rightarrow> bool \<Rightarrow> bool \<Rightarrow> bool \<Rightarrow> string option
     \<Rightarrow> sample \<Rightarrow> acc \<Rightarrow> rng \<Rightarrow> (error + acc) \<times> sample \<times> rng" where
  \<comment> \<open>The body of the loop over the samples, lines 219 to 294.\<close>
  "process_sample tz insert_title num_hard_negatives num_other_negatives shuffle
                  shuffle_positives hard_neg_fallback query_token s a g =
     (case sample_ctxs s num_hard_negatives num_other_negatives shuffle shuffle_positives
             hard_neg_fallback g of
        (Inl e, s', g') \<Rightarrow> (Inl e, s', g')
      | (Inr (positive_ctx, neg_ctxs, hard_neg_ctxs), s', g') \<Rightarrow>
          (case encode_question (query s') tz query_token
                  (append_ctxs tz insert_title a positive_ctx neg_ctxs hard_neg_ctxs) g' of
             (Inl e, g'') \<Rightarrow> (Inl e, s', g'')
           | (Inr a2, g'') \<Rightarrow> (Inr a2, s', g'')))"

fun process_samples ::
  "tensorizer \<Rightarrow> bool \<Rightarrow> int \<Rightarrow> int \<Rightarrow> bool \<Rightarrow> bool \<Rightarrow> bool \<Rightarrow> string option
     \<Rightarrow> sample list \<Rightarrow> acc \<Rightarrow> rng \<Rightarrow> (error + acc) \<times> sample list \<times> rng" where
  \<comment> \<open>\<open>for sample in samples\<close>; an exception leaves the remaining samples untouched.\<close>
  "process_samples tz it nh no sh sp fb qt [] a g = (Inr a, [], g)"
| "process_samples tz it nh no sh sp fb qt (s # ss) a g =
     (case process_sample tz it nh no sh sp fb qt s a g of
        (Inl e, s', g') \<Rightarrow> (Inl e, s' # ss, g')
      | (Inr a', s', g') \<Rightarrow>
          (case process_samples tz it nh no sh sp fb qt ss a' g' of
             (r, ss', g'') \<Rightarrow> (r, s' # ss', g'')))"

definition stack_rows :: "tensor list \<Rightarrow> error + tensor" where
  \<comment> \<open>\<open>torch.cat([t.view(1, -1) for t in ts], dim=0)\<close>\<close>
  "stack_rows ts = torch_cat (map view_row ts)"

fun view_question_rows :: "py_value list \<Rightarrow> error + tensor list" where
  \<comment> \<open>\<open>[q.view(1, -1) for q in question_tensors]\<close>; a tuple has no attribute \<open>view\<close>.\<close>
  "view_question_rows [] = Inr []"
| "view_question_rows (PyTensor t # qs) =
     (case view_question_rows qs of Inl e \<Rightarrow> Inl e | Inr vs \<Rightarrow> Inr (view_row t # vs))"
| "view_question_rows (PyTuple tr # qs) = Inl AttributeError"

definition stack_question_rows :: "py_value list \<Rightarrow> error + tensor" where
  "stack_question_rows qs =
     (case view_question_rows qs of Inl e \<Rightarrow> Inl e | Inr vs \<Rightarrow> torch_cat vs)"

definition stack_position_ids :: "tensorizer \<Rightarrow> tensor list \<Rightarrow> error + tensor" where
  \<comment> \<open>Lines 301 to 307 for one of the two lists.\<close>
  "stack_position_ids tz ts =
     (case get_max_mention_length tz of
        Some L \<Rightarrow> (case view_all_mentions L ts of Inl e \<Rightarrow> Inl e | Inr vs \<Rightarrow> torch_cat vs)
      | None \<Rightarrow> torch_cat ts)"

definition build_batch :: "tensorizer \<Rightarrow> acc \<Rightarrow> error + BiEncoderBatch" where
  \<comment> \<open>Lines 296 to 328.\<close>
  "build_batch tz a =
     (case stack_rows (ctx_tensors a) of
        Inl e \<Rightarrow> Inl e
      | Inr ctxs_tensor \<Rightarrow>
     (case stack_rows (ctx_entity_tensors a) of
        Inl e \<Rightarrow> Inl e
      | Inr ctxs_entity_tensor \<Rightarrow>
     (case stack_question_rows (question_tensors a) of
        Inl e \<Rightarrow> Inl e
      | Inr questions_tensor \<Rightarrow>
     (case stack_rows (question_entity_tensors a) of
        Inl e \<Rightarrow> Inl e
      | Inr questions_entity_tensor \<Rightarrow>
     (case stack_position_ids tz (question_entity_position_ids_acc a) of
        Inl e \<Rightarrow> Inl e
      | Inr q_positions \<Rightarrow>
     (case stack_position_ids tz (ctxs_entity_position_ids a) of
        Inl e \<Rightarrow> Inl e
      | Inr ctx_positions \<Rightarrow>
          Inr \<lparr>question_ids = questions_tensor,
               question_segments = zeros_like questions_tensor,
               question_entity_ids = questions_entity_tensor,
               question_entity_position_ids = q_positions,
               question_entity_segments = zeros_like questions_entity_tensor,
               context_ids = ctxs_tensor,
               ctx_segments = zeros_like ctxs_tensor,
               ctx_entity_ids = ctxs_entity_tensor,
               ctx_entity_position_ids = ctx_positions,
               ctx_entity_segments = zeros_like ctxs_entity_tensor,
               is_positive = positive_ctx_indices a,
               hard_negatives = hard_neg_ctx_indices a,
               encoder_type = ''question''\<rparr>))))))"

definition create_biencoder_input ::
  "sample list \<Rightarrow> tensorizer \<Rightarrow> bool \<Rightarrow> int \<Rightarrow> int \<Rightarrow> bool \<Rightarrow> bool \<Rightarrow> bool \<Rightarrow> string option
     \<Rightarrow> rng \<Rightarrow> (error + BiEncoderBatch) \<times> sample list \<times> rng" where
  \<comment> \<open>The result, the samples as the call leaves them, and the generators afterwards.\<close>
  "create_biencoder_input samples tz insert_title num_hard_negatives num_other_negatives
                          shuffle shuffle_positives hard_neg_fallback query_token g =
     (case process_samples tz insert_title num_hard_negatives num_other_negatives shuffle
             shuffle_positives hard_neg_fallback query_token samples empty_acc g of
        (Inl e, ss, g') \<Rightarrow> (Inl e, ss, g')
      | (Inr a, ss, g') \<Rightarrow> (build_batch tz a, ss, g'))"

section \<open>Passage counts and example data\<close>

definition num_ctxs :: "int \<Rightarrow> int \<Rightarrow> bool \<Rightarrow> sample \<Rightarrow> nat" where
  \<comment> \<open>The number of passages that one sample contributes to the batch: the positive, the
      truncated other negatives and the truncated hard negatives.\<close>
  "num_ctxs num_hard_negatives num_other_negatives hard_neg_fallback s =
     1 + length (py_slice_to (negative_passages s) num_other_negatives)
       + length (py_slice_to
                   (if hard_neg_fallback \<and> hard_negative_passages s = []
                    then py_slice_to (negative_passages s) num_hard_negatives
                    else hard_negative_passages s) num_hard_negatives)"

fun offsets :: "int \<Rightarrow> int \<Rightarrow> bool \<Rightarrow> nat \<Rightarrow> sample list \<Rightarrow> nat list" where
  \<comment> \<open>The running total of the passage counts, starting at \<open>c\<close>.\<close>
  "offsets nh no fb c [] = []"
| "offsets nh no fb c (s # ss) = c # offsets nh no fb (c + num_ctxs nh no fb s) ss"

definition example_tensorizer :: tensorizer where
  \<comment> \<open>A tensorizer for the examples: the token ids of a text are its character codes.\<close>
  "example_tensorizer =
     \<lparr>text_to_tensor = (\<lambda>txt ttl ents spans aml.
          (Tensor [length txt] (map (\<lambda>c. int (of_char c)) txt), Tensor [1] [0],
           Tensor [1, 1] [0])),
      get_token_id = (\<lambda>s. 99), get_pad_id = 0, get_max_mention_length = Some 1,
      max_length = 8, cls_token_id = 1, sep_token_id = 2\<rparr>"

definition psg :: "string \<Rightarrow> passage" where
  "psg t = \<lparr>ptext = t, title = None, entities = None, entity_spans = None\<rparr>"

definition example_samples :: "sample list" where
  "example_samples =
     [\<lparr>query = psg ''q'', positive_passages = [psg ''a''],
       negative_passages = [psg ''b'', psg ''c''], hard_negative_passages = [psg ''d'']\<rparr>,
      \<lparr>query = psg ''r'', positive_passages = [psg ''e''],
       negative_passages = [psg ''f'', psg ''g''], hard_negative_passages = []\<rparr>]"

definition example_samples_shuffled :: "sample list" where
  "example_samples_shuffled =
     [\<lparr>query = psg ''q'', positive_passages = [psg ''a''],
       negative_passages = [psg ''c'', psg ''b''], hard_negative_passages = [psg ''d'']\<rparr>,
      \<lparr>query = psg ''r'', positive_passages = [psg ''e''],
       negative_passages = [psg ''g'', psg ''f''], hard_negative_passages = []\<rparr>]"

definition example_rng :: rng where
  "example_rng = \<lparr>np_random = [], py_random = [0, 0, 1], rnd = []\<rparr>"

definition example_batch :: BiEncoderBatch where
  "example_batch =
     \<lparr>question_ids = Tensor [2, 1] [113, 114],
      question_segments = Tensor [2, 1] [0, 0],
      question_entity_ids = Tensor [2, 1] [0, 0],
      question_entity_position_ids = Tensor [2, 1, 1] [0, 0],
      question_entity_segments = Tensor [2, 1] [0, 0],
      context_ids = Tensor [6, 1] [97, 99, 100, 101, 103, 103],
      ctx_segments = Tensor [6, 1] [0, 0, 0, 0, 0, 0],
      ctx_entity_ids = Tensor [6, 1] [0, 0, 0, 0, 0, 0],
      ctx_entity_position_ids = Tensor [6, 1, 1] [0, 0, 0, 0, 0, 0],
      ctx_entity_segments = Tensor [6, 1] [0, 0, 0, 0, 0, 0],
      is_positive = [0, 3], hard_negatives = [[1], [4]],
      encoder_type = ''question''\<rparr>"

definition example_single :: sample where
  "example_single =
     \<lparr>query = psg ''q'', positive_passages = [psg ''a''],
      negative_passages = [psg ''b''], hard_negative_passages = [psg ''d'']\<rparr>"

definition example_single_batch :: BiEncoderBatch where
  "example_single_batch =
     \<lparr>question_ids = Tensor [1, 1] [113],
      question_segments = Tensor [1, 1] [0],
      question_entity_ids = Tensor [1, 1] [0],
      question_entity_position_ids = Tensor [1, 1, 1] [0],
      question_entity_segments = Tensor [1, 1] [0],
      context_ids = Tensor [3, 1] [97, 98, 100],
      ctx_segments = Tensor [3, 1] [0, 0, 0],
      ctx_entity_ids = Tensor [3, 1] [0, 0, 0],
      ctx_entity_position_ids = Tensor [3, 1, 1] [0, 0, 0],
      ctx_entity_segments = Tensor [3, 1] [0, 0, 0],
      is_positive = [0], hard_negatives = [[1]],
      encoder_type = ''question''\<rparr>"

definition example_fallback_sample :: sample where
  "example_fallback_sample =
     \<lparr>query = psg ''r'', positive_passages = [psg ''e''],
      negative_passages = [psg ''f'', psg ''g''], hard_negative_passages = []\<rparr>"

definition same_up_to_pool_order :: "sample \<Rightarrow> sample \<Rightarrow> bool" where
  \<comment> \<open>The second sample is the first one with its two negative pools reordered.\<close>
  "same_up_to_pool_order s s' =
     (query s' = query s \<and> positive_passages s' = positive_passages s
      \<and> mset (negative_passages s') = mset (negative_passages s)
      \<and> mset (hard_negative_passages s') = mset (hard_negative_passages s))"

definition span_tensorizer :: tensorizer where
  \<comment> \<open>A tensorizer with \<open>max_length = 100\<close> that keeps the first 99 tokens and closes with
      SEP: the untruncated text has 200 tokens with the marker 99 at position 150, so the
      truncated token tensor does not hold the marker.\<close>
  "span_tensorizer =
     \<lparr>text_to_tensor = (\<lambda>txt ttl ents spans apply_max_len.
          (if apply_max_len then Tensor [100] (101 # replicate 98 7 @ [102])
           else Tensor [200] (101 # replicate 149 7 @ [99] @ replicate 48 7 @ [102]),
           Tensor [1] [0], Tensor [1, 1] [0])),
      get_token_id = (\<lambda>s. 99), get_pad_id = 0, get_max_mention_length = Some 1,
      max_length = 100, cls_token_id = 101, sep_token_id = 102\<rparr>"

section \<open>Similarity scores\<close>

text \<open>
  A batch of vectors is a two-dimensional tensor: its number of columns and its rows. The
  entries are taken from any semiring.
\<close>

datatype 'a matrix = Matrix (ncols: nat) (rows: "'a list list")

definition nrows :: "'a matrix \<Rightarrow> nat" where
  "nrows M = length (rows M)"

definition dot :: "'a::semiring_0 list \<Rightarrow> 'a list \<Rightarrow> 'a" where
  "dot u v = sum_list (map2 (*) u v)"

definition dot_product_scores ::
  "'a::semiring_0 matrix \<Rightarrow> 'a matrix \<Rightarrow> error + 'a matrix" where
  \<comment> \<open>\<open>torch.matmul(q_vectors, torch.transpose(ctx_vectors, 0, 1))\<close>: entry \<open>(i, j)\<close> is the
      dot product of row \<open>i\<close> of the queries and row \<open>j\<close> of the passages.\<close>
  "dot_product_scores q_vectors ctx_vectors =
     (if ncols q_vectors = ncols ctx_vectors
      then Inr (Matrix (nrows ctx_vectors)
                  (map (\<lambda>q. map (\<lambda>c. dot q c) (rows ctx_vectors)) (rows q_vectors)))
      else Inl (RuntimeError ''matmul''))"

definition broadcast_dim :: "nat \<Rightarrow> nat \<Rightarrow> nat option" where
  \<comment> \<open>Broadcasting of one dimension: equal sizes, or one of them 1.\<close>
  "broadcast_dim a b =
     (if a = b then Some a else if a = 1 then Some b else if b = 1 then Some a else None)"

definition expand :: "nat \<Rightarrow> 'a list \<Rightarrow> 'a list" where
  \<comment> \<open>A dimension of size 1 is repeated up to the broadcast size.\<close>
  "expand n xs = (if length xs = n then xs else replicate n (hd xs))"

definition tensor_add :: "'a::semiring_0 matrix \<Rightarrow> 'a matrix \<Rightarrow> error + 'a matrix" where
  \<comment> \<open>\<open>a + b\<close> on two-dimensional tensors, with broadcasting.\<close>
  "tensor_add a b =
     (case broadcast_dim (nrows a) (nrows b) of
        None \<Rightarrow> Inl (RuntimeError ''add'')
      | Some n \<Rightarrow>
          (case broadcast_dim (ncols a) (ncols b) of
             None \<Rightarrow> Inl (RuntimeError ''add'')
           | Some m \<Rightarrow>
               Inr (Matrix m (map2 (\<lambda>u v. map2 (+) (expand m u) (expand m v))
                                (expand n (rows a)) (expand n (rows b))))))"

definition BiEncoderNllLoss_get_scores ::
  "'a::semiring_0 matrix \<Rightarrow> 'a matrix \<Rightarrow> error + 'a matrix" where
  "BiEncoderNllLoss_get_scores q_vector ctx_vectors = dot_product_scores q_vector ctx_vectors"

definition BiEncoderEntLoss_get_scores ::
  "'a::semiring_0 matrix \<Rightarrow> 'a matrix \<Rightarrow> 'a matrix \<Rightarrow> 'a matrix \<Rightarrow> error + 'a matrix" where
  \<comment> \<open>\<open>f(q_vector, ctx_vectors) + f(q_ent_vector, ctx_ent_vectors)\<close>\<close>
  "BiEncoderEntLoss_get_scores q_vector ctx_vectors q_ent_vector ctx_ent_vectors =
     (case dot_product_scores q_vector ctx_vectors of
        Inl e \<Rightarrow> Inl e
      | Inr s \<Rightarrow>
          (case dot_product_scores q_ent_vector ctx_ent_vectors of
             Inl e \<Rightarrow> Inl e
           | Inr s_ent \<Rightarrow> tensor_add s s_ent))"

definition cosine_similarity :: "real list \<Rightarrow> real list \<Rightarrow> real" where
  \<comment> \<open>\<open>x1 . x2 / max(|x1| * |x2|, eps)\<close> with \<open>eps = 1e-8\<close>.\<close>
  "cosine_similarity u v = dot u v / max (sqrt (dot u u) * sqrt (dot v v)) (1 / 10 ^ 8)"

definition F_cosine_similarity :: "real matrix \<Rightarrow> real matrix \<Rightarrow> error + real list" where
  \<comment> \<open>\<open>F.cosine_similarity(x1, x2, dim=1)\<close>: the two tensors are broadcast to a common shape
      and dimension 1 is reduced, which leaves one value per row.\<close>
  "F_cosine_similarity x1 x2 =
     (case broadcast_dim (nrows x1) (nrows x2) of
        None \<Rightarrow> Inl (RuntimeError ''cosine_similarity'')
      | Some n \<Rightarrow>
          (case broadcast_dim (ncols x1) (ncols x2) of
             None \<Rightarrow> Inl (RuntimeError ''cosine_similarity'')
           | Some d \<Rightarrow>
               Inr (map2 (\<lambda>u v. cosine_similarity (expand d u) (expand d v))
                      (expand n (rows x1)) (expand n (rows x2)))))"

definition cosine_scores :: "real matrix \<Rightarrow> real matrix \<Rightarrow> error + real list" where
  "cosine_scores q_vector ctx_vectors = F_cosine_similarity q_vector ctx_vectors"

section \<open>Rows of the stacked passage tensor\<close>

text \<open>
  \<open>tensor_row t k\<close> is row \<open>k\<close> of a two-dimensional tensor, and \<open>slice_negatives\<close> is what
  lines 237 to 241 keep of the two negative pools of a sample: the other negatives followed
  by the hard negatives, in the order in which \<open>all_ctxs\<close> holds them behind the positive.
\<close>

definition tensor_row :: "tensor \<Rightarrow> nat \<Rightarrow> int list" where
  \<comment> \<open>\<open>t[k]\<close> for a tensor of shape \<open>[n, w]\<close>\<close>
  "tensor_row t k = take (shape t ! 1) (drop (k * (shape t ! 1)) (elems t))"

definition slice_negatives :: "int \<Rightarrow> int \<Rightarrow> bool \<Rightarrow> sample \<Rightarrow> passage list" where
  "slice_negatives num_hard_negatives num_other_negatives hard_neg_fallback s =
     py_slice_to (negative_passages s) num_other_negatives
       @ py_slice_to
           (if hard_neg_fallback \<and> hard_negative_passages s = []
            then py_slice_to (negative_passages s) num_hard_negatives
            else hard_negative_passages s) num_hard_negatives"

text \<open>
  A tensorizer whose outputs have a fixed size: the character codes of the text, padded or
  cut to two tokens.
\<close>

definition padded_tensorizer :: tensorizer where
  "padded_tensorizer =
     \<lparr>text_to_tensor = (\<lambda>txt ttl ents spans aml.
          (Tensor [2] (take 2 (map (\<lambda>c. int (of_char c)) txt @ [0, 0])), Tensor [1] [0],
           Tensor [1, 1] [0])),
      get_token_id = (\<lambda>s. 99), get_pad_id = 0, get_max_mention_length = Some 1,
      max_length = 2, cls_token_id = 1, sep_token_id = 2\<rparr>"

definition padded_batch :: BiEncoderBatch where
  "padded_batch =
     \<lparr>question_ids = Tensor [2, 2] [113, 0, 114, 0],
      question_segments = Tensor [2, 2] [0, 0, 0, 0],
      question_entity_ids = Tensor [2, 1] [0, 0],
      question_entity_position_ids = Tensor [2, 1, 1] [0, 0],
      question_entity_segments = Tensor [2, 1] [0, 0],
      context_ids = Tensor [6, 2] [97, 0, 99, 0, 100, 0, 101, 0, 103, 0, 103, 0],
      ctx_segments = Tensor [6, 2] [0, 0, 0, 0, 0, 0, 0, 0, 0, 0, 0, 0],
      ctx_entity_ids = Tensor [6, 1] [0, 0, 0, 0, 0, 0],
      ctx_entity_position_ids = Tensor [6, 1, 1] [0, 0, 0, 0, 0, 0],
      ctx_entity_segments = Tensor [6, 1] [0, 0, 0, 0, 0, 0],
      is_positive = [0, 3], hard_negatives = [[1], [4]],
      encoder_type = ''question''\<rparr>"

section \<open>The sample pools as list objects\<close>

text \<open>
  \<open>random.shuffle\<close> reorders a list object, and a sample holds references to its three
  passage lists. To say what a call does to the lists of the caller, the lists live in a
  heap, a map from addresses to lists, and a sample object holds its query and three
  addresses. The code assigns to no attribute of a sample and of no passage, so sample
  objects and passages stay values; the lists at the addresses are all that a call can
  change. Two samples, or two attributes of one sample, may hold the same address.

  \<open>sample_ctxs_heap\<close> to \<open>create_biencoder_input_heap\<close> are the functions
  \<open>sample_ctxs\<close> to \<open>create_biencoder_input\<close> with the pools read from and shuffled in the
  heap; all that does not touch the pools is shared with them. When the lists of the
  samples are different objects, a run on the heap is the run of \<open>create_biencoder_input\<close>
  on the samples read from the heap (lemma \<open>create_biencoder_input_heap_value\<close> below).
\<close>

type_synonym addr = nat

type_synonym heap = "addr \<Rightarrow> passage list"

record sample_object =
  query_obj :: passage
  positive_passages_ref :: addr
  negative_passages_ref :: addr
  hard_negative_passages_ref :: addr

definition load :: "heap \<Rightarrow> sample_object \<Rightarrow> sample" where
  \<comment> \<open>What the caller reads from a sample object in a given heap.\<close>
  "load h s = \<lparr>query = query_obj s,
               positive_passages = h (positive_passages_ref s),
               negative_passages = h (negative_passages_ref s),
               hard_negative_passages = h (hard_negative_passages_ref s)\<rparr>"

definition shuffle_at :: "addr \<Rightarrow> heap \<Rightarrow> rng \<Rightarrow> heap \<times> rng" where
  \<comment> \<open>\<open>random.shuffle(x)\<close> for the list object \<open>x\<close> at address \<open>r\<close>\<close>
  "shuffle_at r h g = (case random_shuffle (h r) g of (ys, g') \<Rightarrow> (h(r := ys), g'))"

definition sample_ctxs_heap ::
  "sample_object \<Rightarrow> int \<Rightarrow> int \<Rightarrow> bool \<Rightarrow> bool \<Rightarrow> bool \<Rightarrow> heap \<Rightarrow> rng
     \<Rightarrow> (error + passage \<times> passage list \<times> passage list) \<times> heap \<times> rng" where
  \<comment> \<open>Lines 222 to 241. The positive is picked before the shuffles; \<open>neg_ctxs\<close> and
      \<open>hard_neg_ctxs\<close> name the two list objects, which are read after both shuffles.\<close>
  "sample_ctxs_heap s num_hard_negatives num_other_negatives shuffle shuffle_positives
                    hard_neg_fallback h g =
     (case select_positive (load h s) shuffle shuffle_positives g of
        (Inl e, g1) \<Rightarrow> (Inl e, h, g1)
      | (Inr positive_ctx, g1) \<Rightarrow>
          (case (if shuffle then shuffle_at (negative_passages_ref s) h g1 else (h, g1)) of
             (h1, g2) \<Rightarrow>
               (case (if shuffle then shuffle_at (hard_negative_passages_ref s) h1 g2
                      else (h1, g2)) of
                  (h2, g3) \<Rightarrow>
                    (let neg_pool = h2 (negative_passages_ref s);
                         hard_pool = h2 (hard_negative_passages_ref s);
                         hard_neg_ctxs0 =
                           (if hard_neg_fallback \<and> length hard_pool = 0
                            then py_slice_to neg_pool num_hard_negatives else hard_pool);
                         neg_ctxs = py_slice_to neg_pool num_other_negatives;
                         hard_neg_ctxs = py_slice_to hard_neg_ctxs0 num_hard_negatives
                     in (Inr (positive_ctx, neg_ctxs, hard_neg_ctxs), h2, g3)))))"

definition process_sample_heap ::
  "tensorizer \<Rightarrow> bool \<Rightarrow> int \<Rightarrow> int \<Rightarrow> bool \<Rightarrow> bool \<Rightarrow> bool \<Rightarrow> string option
     \<Rightarrow> sample_object \<Rightarrow> acc \<Rightarrow> heap \<Rightarrow> rng \<Rightarrow> (error + acc) \<times> heap \<times> rng" where
  \<comment> \<open>The body of the loop over the samples, lines 219 to 294.\<close>
  "process_sample_heap tz insert_title num_hard_negatives num_other_negatives shuffle
                       shuffle_positives hard_neg_fallback query_token s a h g =
     (case sample_ctxs_heap s num_hard_negatives num_other_negatives shuffle shuffle_positives
             hard_neg_fallback h g of
        (Inl e, h', g') \<Rightarrow> (Inl e, h', g')
      | (Inr (positive_ctx, neg_ctxs, hard_neg_ctxs), h', g') \<Rightarrow>
          (case encode_question (query_obj s) tz query_token
                  (append_ctxs tz insert_title a positive_ctx neg_ctxs hard_neg_ctxs) g' of
             (Inl e, g'') \<Rightarrow> (Inl e, h', g'')
           | (Inr a2, g'') \<Rightarrow> (Inr a2, h', g'')))"

fun process_samples_heap ::
  "tensorizer \<Rightarrow> bool \<Rightarrow> int \<Rightarrow> int \<Rightarrow> bool \<Rightarrow> bool \<Rightarrow> bool \<Rightarrow> string option
     \<Rightarrow> sample_object list \<Rightarrow> acc \<Rightarrow> heap \<Rightarrow> rng \<Rightarrow> (error + acc) \<times> heap \<times> rng" where
  "process_samples_heap tz it nh no sh sp fb qt [] a h g = (Inr a, h, g)"
| "process_samples_heap tz it nh no sh sp fb qt (s # ss) a h g =
     (case process_sample_heap tz it nh no sh sp fb qt s a h g of
        (Inl e, h', g') \<Rightarrow> (Inl e, h', g')
      | (Inr a', h', g') \<Rightarrow> process_samples_heap tz it nh no sh sp fb qt ss a' h' g')"

definition create_biencoder_input_heap ::
  "sample_object list \<Rightarrow> tensorizer \<Rightarrow> bool \<Rightarrow> int \<Rightarrow> int \<Rightarrow> bool \<Rightarrow> bool \<Rightarrow> bool
     \<Rightarrow> string option \<Rightarrow> heap \<Rightarrow> rng \<Rightarrow> (error + BiEncoderBatch) \<times> heap \<times> rng" where
  "create_biencoder_input_heap samples tz insert_title num_hard_negatives num_other_negatives
                               shuffle shuffle_positives hard_neg_fallback query_token h g =
     (case process_samples_heap tz insert_title num_hard_negatives num_other_negatives shuffle
             shuffle_positives hard_neg_fallback query_token samples empty_acc h g of
        (Inl e, h', g') \<Rightarrow> (Inl e, h', g')
      | (Inr a, h', g') \<Rightarrow> (build_batch tz a, h', g'))"

definition pool_refs :: "sample_object list \<Rightarrow> addr list" where
  \<comment> \<open>The addresses of the lists that lines 234 and 235 shuffle.\<close>
  "pool_refs samples =
     concat (map (\<lambda>s. [negative_passages_ref s, hard_negative_passages_ref s]) samples)"

definition list_refs :: "sample_object list \<Rightarrow> addr list" where
  \<comment> \<open>The addresses of all passage lists of the samples.\<close>
  "list_refs samples =
     concat (map (\<lambda>s. [positive_passages_ref s, negative_passages_ref s,
                         hard_negative_passages_ref s]) samples)"

text \<open>The samples of \<open>example_samples\<close>, with their lists at the addresses 0 to 5.\<close>

definition example_objects :: "sample_object list" where
  "example_objects =
     [\<lparr>query_obj = psg ''q'', positive_passages_ref = 0, negative_passages_ref = 1,
       hard_negative_passages_ref = 2\<rparr>,
      \<lparr>query_obj = psg ''r'', positive_passages_ref = 3, negative_passages_ref = 4,
       hard_negative_passages_ref = 5\<rparr>]"

definition example_heap :: heap where
  "example_heap =
     (\<lambda>a. [])(0 := [psg ''a''], 1 := [psg ''b'', psg ''c''], 2 := [psg ''d''],
              3 := [psg ''e''], 4 := [psg ''f'', psg ''g''])"

definition example_target :: heap where
  "example_target = example_heap(4 := [psg ''g'', psg ''f''])"

section \<open>Properties\<close>

section \<open>The random shuffle is a permutation\<close>

lemma length_shuffle_from: "length (fst (shuffle_from i xs t)) = length xs"
  by (induction i arbitrary: xs t) (auto split: prod.splits)

lemma randbelow_less: "0 < n \<Longrightarrow> fst (randbelow n t) < n"
  by (cases "next_draw t") (simp add: randbelow_def nat_less_iff)

lemma mset_shuffle_from: "i < length xs \<Longrightarrow> mset (fst (shuffle_from i xs t)) = mset xs"
proof (induction i arbitrary: xs t)
  case 0
  then show ?case by simp
next
  case (Suc i)
  obtain j t' where rb: "randbelow (Suc i + 1) t = (j, t')"
    by (cases "randbelow (Suc i + 1) t")
  have "j < Suc i + 1" using randbelow_less[of "Suc i + 1" t] rb by simp
  with Suc.prems have j: "j < length xs" by simp
  have "mset (xs[Suc i := xs ! j, j := xs ! Suc i]) = mset xs"
    using mset_swap[OF j Suc.prems] by simp
  then show ?case using Suc rb by simp
qed

lemma mset_random_shuffle: "mset (fst (random_shuffle xs g)) = mset xs"
proof (cases xs)
  case Nil
  then show ?thesis by (simp add: random_shuffle_def)
next
  case (Cons x ys)
  then have "length xs - 1 < length xs" by simp
  from mset_shuffle_from[OF this, of "py_random g"] show ?thesis
    by (cases "shuffle_from (length xs - 1) xs (py_random g)") (simp add: random_shuffle_def)
qed

lemma random_shuffle_mset: "random_shuffle xs g = (ys, g') \<Longrightarrow> mset ys = mset xs"
  using mset_random_shuffle[of xs g] by simp

lemma length_py_slice_to:
  "length (py_slice_to xs n) = (if 0 \<le> n then min (nat n) (length xs) else length xs - nat (- n))"
  by (auto simp: py_slice_to_def)

lemma sample_ctxs_pools:
  assumes "sample_ctxs s nh no sh sp fb g = (r, s', g')"
  shows "query s' = query s \<and> positive_passages s' = positive_passages s
         \<and> mset (negative_passages s') = mset (negative_passages s)
         \<and> mset (hard_negative_passages s') = mset (hard_negative_passages s)"
  using assms
  by (auto simp: sample_ctxs_def Let_def dest: random_shuffle_mset
           split: prod.splits sum.splits if_splits)

lemma sample_ctxs_unshuffled:
  assumes "sample_ctxs s nh no False sp fb g = (r, s', g')"
  shows "s' = s \<and> g' = g"
  using assms
  by (auto simp: sample_ctxs_def select_positive_def Let_def split: prod.splits sum.splits if_splits list.splits)

lemma sample_ctxs_slices:
  assumes "sample_ctxs s nh no sh sp fb g = (Inr (p, neg, hard), s', g')"
  shows "neg = py_slice_to (negative_passages s') no
         \<and> hard = py_slice_to (if fb \<and> hard_negative_passages s' = []
                                 then py_slice_to (negative_passages s') nh
                                 else hard_negative_passages s') nh"
  using assms
  by (auto simp: sample_ctxs_def Let_def split: prod.splits sum.splits if_splits)

lemma num_ctxs_cong:
  assumes "length (negative_passages s') = length (negative_passages s)"
    and "length (hard_negative_passages s') = length (hard_negative_passages s)"
  shows "num_ctxs nh no fb s' = num_ctxs nh no fb s"
proof -
  have e: "hard_negative_passages s' = [] \<longleftrightarrow> hard_negative_passages s = []"
    using assms(2) by (metis length_0_conv)
  show ?thesis unfolding num_ctxs_def using assms e
    by (auto simp: length_py_slice_to)
qed

lemma sample_ctxs_count:
  assumes "sample_ctxs s nh no sh sp fb g = (Inr (p, neg, hard), s', g')"
  shows "1 + length neg + length hard = num_ctxs nh no fb s"
proof -
  have pools: "length (negative_passages s') = length (negative_passages s)"
      "length (hard_negative_passages s') = length (hard_negative_passages s)"
    using sample_ctxs_pools[OF assms] by (metis size_mset)+
  have "1 + length neg + length hard = num_ctxs nh no fb s'"
    using sample_ctxs_slices[OF assms] by (simp add: num_ctxs_def)
  then show ?thesis using num_ctxs_cong[OF pools] by simp
qed

lemma encode_question_frame:
  assumes "encode_question q tz qt a g = (Inr a', g')"
  shows "ctx_tensors a' = ctx_tensors a \<and> positive_ctx_indices a' = positive_ctx_indices a
         \<and> hard_neg_ctx_indices a' = hard_neg_ctx_indices a"
  using assms
  by (auto simp: encode_question_def append_question_def split: option.splits if_splits prod.splits sum.splits)

lemma process_sample_Inr:
  assumes "process_sample tz it nh no sh sp fb qt s a g = (Inr a', s', g')"
  obtains p neg hard g1 where
    "sample_ctxs s nh no sh sp fb g = (Inr (p, neg, hard), s', g1)"
    "encode_question (query s') tz qt (append_ctxs tz it a p neg hard) g1 = (Inr a', g')"
  using assms
  by (auto simp: process_sample_def split: prod.splits sum.splits)

lemma append_ctxs_ctx_tensors:
  "ctx_tensors (append_ctxs tz it a p neg hard) =
     ctx_tensors a @ map (\<lambda>c. fst (ctx_to_tensor tz it c)) (p # neg @ hard)"
  by (simp add: append_ctxs_def Let_def comp_def)

lemma append_ctxs_positive:
  "positive_ctx_indices (append_ctxs tz it a p neg hard) =
     positive_ctx_indices a @ [length (ctx_tensors a)]"
  by (simp add: append_ctxs_def Let_def)

lemma append_ctxs_hard:
  "hard_neg_ctx_indices (append_ctxs tz it a p neg hard) =
     hard_neg_ctx_indices a
       @ [[length (ctx_tensors a) + 1 ..< length (ctx_tensors a) + 1 + length hard]]"
  by (simp add: append_ctxs_def Let_def del: upt_Suc)

lemma process_sample_indices:
  assumes "process_sample tz it nh no sh sp fb qt s a g = (Inr a', s', g')"
  shows "length (ctx_tensors a') = length (ctx_tensors a) + num_ctxs nh no fb s
         \<and> positive_ctx_indices a' = positive_ctx_indices a @ [length (ctx_tensors a)]"
proof -
  from assms obtain p neg hard g1 where
    sc: "sample_ctxs s nh no sh sp fb g = (Inr (p, neg, hard), s', g1)" and
    eq: "encode_question (query s') tz qt (append_ctxs tz it a p neg hard) g1 = (Inr a', g')"
    by (rule process_sample_Inr)
  show ?thesis
    using encode_question_frame[OF eq] sample_ctxs_count[OF sc]
    by (simp add: append_ctxs_ctx_tensors append_ctxs_positive)
qed

lemma process_samples_indices:
  assumes "process_samples tz it nh no sh sp fb qt ss a g = (Inr a', ss', g')"
  shows "length (ctx_tensors a') = length (ctx_tensors a) + sum_list (map (num_ctxs nh no fb) ss)
         \<and> positive_ctx_indices a' = positive_ctx_indices a @ offsets nh no fb (length (ctx_tensors a)) ss"
  using assms
proof (induction ss arbitrary: a g ss')
  case Nil
  then show ?case by simp
next
  case (Cons s ss)
  from Cons.prems obtain a1 s1 g1 ss1 where
    st: "process_sample tz it nh no sh sp fb qt s a g = (Inr a1, s1, g1)" and
    rest: "process_samples tz it nh no sh sp fb qt ss a1 g1 = (Inr a', ss1, g')"
    by (auto split: prod.splits sum.splits)
  show ?case
    using process_sample_indices[OF st] Cons.IH[OF rest] by simp
qed

lemma offsets_nth:
  "i < length ss \<Longrightarrow> offsets nh no fb c ss ! i = c + sum_list (map (num_ctxs nh no fb) (take i ss))"
proof (induction ss arbitrary: c i)
  case Nil
  then show ?case by simp
next
  case (Cons s ss)
  then show ?case by (cases i) simp_all
qed

lemma length_offsets: "length (offsets nh no fb c ss) = length ss"
  by (induction ss arbitrary: c) simp_all

lemma filter_view_row: "filter (\<lambda>t. shape t \<noteq> [0]) (map view_row ts) = map view_row ts"
  by (induction ts) (simp_all add: view_row_def)

lemma sum_hd_view_row: "sum_list (map (\<lambda>t. hd (shape t)) (map view_row ts)) = length ts"
  by (induction ts) (simp_all add: view_row_def)

lemma stack_rows_count:
  assumes "stack_rows ts = Inr T"
  shows "hd (shape T) = length ts"
proof (cases ts)
  case Nil
  with assms show ?thesis by (simp add: stack_rows_def torch_cat_def)
next
  case (Cons t ts')
  have f: "filter (\<lambda>t. shape t \<noteq> [0]) (map view_row ts) = view_row t # map view_row ts'"
    using filter_view_row[of ts] Cons by simp
  have s: "sum_list (map (\<lambda>t. hd (shape t)) (view_row t # map view_row ts')) = length ts"
    using sum_hd_view_row[of ts] Cons by simp
  have sh: "shape (view_row t) = [1, length (elems t)]" by (simp add: view_row_def)
  from assms have "torch_cat (map view_row ts) = Inr T" by (simp add: stack_rows_def)
  then have "shape T = length ts # [length (elems t)]"
    unfolding torch_cat_def f using Cons s sh
    by (auto simp del: sum_list.Cons list.map split: if_splits)
  then show ?thesis by simp
qed

lemma build_batch_fields:
  assumes "build_batch tz a = Inr b"
  shows "is_positive b = positive_ctx_indices a \<and> hard_negatives b = hard_neg_ctx_indices a
         \<and> stack_rows (ctx_tensors a) = Inr (context_ids b)
         \<and> stack_question_rows (question_tensors a) = Inr (question_ids b)"
  using assms by (auto simp: build_batch_def split: sum.splits)

lemma create_biencoder_input_Inr:
  assumes "create_biencoder_input samples tz it nh no sh sp fb qt g = (Inr b, samples', g')"
  obtains a where
    "process_samples tz it nh no sh sp fb qt samples empty_acc g = (Inr a, samples', g')"
    "build_batch tz a = Inr b"
  using assms by (auto simp: create_biencoder_input_def split: prod.splits sum.splits)


section \<open>The choice of the positive passage\<close>

lemma select_positive_total:
  assumes "positive_passages s \<noteq> []"
  shows "\<exists>p g1. select_positive s sh sp g = (Inr p, g1) \<and> p \<in> set (positive_passages s)"
proof (cases "sh \<and> sp")
  case True
  obtain k t where rb: "randbelow (length (positive_passages s)) (np_random g) = (k, t)"
    by (cases "randbelow (length (positive_passages s)) (np_random g)")
  have "k < length (positive_passages s)"
    using randbelow_less[of "length (positive_passages s)" "np_random g"] rb assms by simp
  then have "positive_passages s ! k \<in> set (positive_passages s)"
    by (rule nth_mem)
  with True rb assms show ?thesis
    by (simp add: select_positive_def np_random_choice_def)
next
  case False
  with assms show ?thesis
    by (cases "positive_passages s") (auto simp: select_positive_def)
qed

lemma map_nth_upt_take: "n \<le> length ys \<Longrightarrow> map (\<lambda>k. ys ! k) [0..<n] = take n ys"
  by (simp add: list_eq_iff_nth_eq)

section \<open>Runs without shuffling\<close>

lemma process_sample_unshuffled:
  assumes "qt \<noteq> Some ''[START_ENT]''"
  shows "process_sample tz it nh no False sp fb qt s a g
           = (fst (process_sample tz it nh no False sp fb qt s a g0), s, g)"
  using assms
  by (auto simp: process_sample_def sample_ctxs_def select_positive_def encode_question_def
                 Let_def split: list.splits option.splits)

lemma process_samples_unshuffled:
  assumes "qt \<noteq> Some ''[START_ENT]''"
  shows "process_samples tz it nh no False sp fb qt ss a g
           = (fst (process_samples tz it nh no False sp fb qt ss a g0), ss, g)"
proof (induction ss arbitrary: a g g0)
  case Nil
  show ?case by simp
next
  case (Cons s ss)
  obtain r1 where r1: "\<And>g. process_sample tz it nh no False sp fb qt s a g = (r1, s, g)"
    using process_sample_unshuffled[OF assms, of tz it nh no sp fb s a _ g0] by blast
  show ?case
  proof (cases r1)
    case (Inl e)
    then show ?thesis using r1 by simp
  next
    case (Inr a1)
    obtain r2 where r2: "\<And>g. process_samples tz it nh no False sp fb qt ss a1 g = (r2, ss, g)"
      using Cons.IH[of a1 _ g0] by blast
    show ?thesis using r1 r2 Inr by simp
  qed
qed

lemma sample_pools_unshuffled:
  assumes "process_samples tz it nh no False sp fb qt ss a g = (r, ss', g')"
  shows "ss' = ss"
  using assms
proof (induction ss arbitrary: a g r ss' g')
  case Nil
  then show ?case by simp
next
  case (Cons s ss)
  obtain r1 s1 g1 where st: "process_sample tz it nh no False sp fb qt s a g = (r1, s1, g1)"
    by (cases "process_sample tz it nh no False sp fb qt s a g")
  obtain r0 s0 g0 where sc: "sample_ctxs s nh no False sp fb g = (r0, s0, g0)"
    by (cases "sample_ctxs s nh no False sp fb g")
  from st sc have "s1 = s0"
    by (auto simp: process_sample_def split: sum.splits prod.splits)
  with sample_ctxs_unshuffled[OF sc] have s1: "s1 = s" by simp
  show ?case
  proof (cases r1)
    case (Inl e)
    with Cons.prems st s1 show ?thesis by simp
  next
    case (Inr a1)
    obtain r2 ss2 g2 where rest:
      "process_samples tz it nh no False sp fb qt ss a1 g1 = (r2, ss2, g2)"
      by (cases "process_samples tz it nh no False sp fb qt ss a1 g1")
    with Cons.prems st Inr have "ss' = s1 # ss2" by simp
    with s1 Cons.IH[OF rest] show ?thesis by simp
  qed
qed

lemma encode_span_keeps_entity_tensors:
  assumes "encode_question q tz (Some ''[START_ENT]'') a g = (Inr a', g')"
  shows "question_entity_tensors a' = question_entity_tensors a"
  using assms
  by (auto simp: encode_question_def split: prod.splits sum.splits)

lemma process_sample_span_entity_tensors:
  assumes "process_sample tz it nh no sh sp fb (Some ''[START_ENT]'') s a g = (Inr a', s', g')"
  shows "question_entity_tensors a' = question_entity_tensors a"
proof -
  from assms obtain p neg hard g1 where
    "encode_question (query s') tz (Some ''[START_ENT]'') (append_ctxs tz it a p neg hard) g1
       = (Inr a', g')"
    by (rule process_sample_Inr)
  from encode_span_keeps_entity_tensors[OF this] show ?thesis
    by (simp add: append_ctxs_def Let_def)
qed

lemma process_samples_span_entity_tensors:
  assumes "process_samples tz it nh no sh sp fb (Some ''[START_ENT]'') ss a g = (Inr a', ss', g')"
  shows "question_entity_tensors a' = question_entity_tensors a"
  using assms
proof (induction ss arbitrary: a g ss')
  case Nil
  then show ?case by simp
next
  case (Cons s ss)
  from Cons.prems obtain a1 s1 g1 ss1 where
    st: "process_sample tz it nh no sh sp fb (Some ''[START_ENT]'') s a g = (Inr a1, s1, g1)" and
    rest: "process_samples tz it nh no sh sp fb (Some ''[START_ENT]'') ss a1 g1 = (Inr a', ss1, g')"
    by (auto split: prod.splits sum.splits)
  show ?case
    using process_sample_span_entity_tensors[OF st] Cons.IH[OF rest] by simp
qed

lemma build_batch_needs_entity_tensors:
  assumes "question_entity_tensors a = []"
  shows "build_batch tz a \<noteq> Inr b"
  using assms
  by (auto simp: build_batch_def stack_rows_def torch_cat_def split: sum.splits)

lemma span_mode_never_returns:
  "fst (create_biencoder_input samples tz it nh no sh sp fb (Some ''[START_ENT]'') g) \<noteq> Inr b"
proof
  assume "fst (create_biencoder_input samples tz it nh no sh sp fb (Some ''[START_ENT]'') g) = Inr b"
  then obtain ss' g' where
    "create_biencoder_input samples tz it nh no sh sp fb (Some ''[START_ENT]'') g = (Inr b, ss', g')"
    by (metis prod.collapse)
  then obtain a where
    ps: "process_samples tz it nh no sh sp fb (Some ''[START_ENT]'') samples empty_acc g
           = (Inr a, ss', g')" and bb: "build_batch tz a = Inr b"
    by (rule create_biencoder_input_Inr)
  from process_samples_span_entity_tensors[OF ps] have "question_entity_tensors a = []"
    by (simp add: empty_acc_def)
  from build_batch_needs_entity_tensors[OF this] bb show False by blast
qed

lemma create_unshuffled:
  assumes "qt \<noteq> Some ''[START_ENT]''"
  shows "create_biencoder_input samples tz it nh no False sp fb qt g
           = (fst (create_biencoder_input samples tz it nh no False sp fb qt g0), samples, g)"
proof -
  obtain r where r: "\<And>g. process_samples tz it nh no False sp fb qt samples empty_acc g = (r, samples, g)"
    using process_samples_unshuffled[OF assms, of tz it nh no sp fb samples empty_acc _ g0] by blast
  show ?thesis by (cases r) (simp_all add: create_biencoder_input_def r)
qed


section \<open>Span selection\<close>

text \<open>
  With a token tensor of two or more elements line 443 raises; the only value the function
  can return is the tensorizer's own tuple; and no error it raises carries the query text.
\<close>

lemma tuple_contains_long:
  "length (elems t) \<ge> 2 \<Longrightarrow>
     tuple_contains (t # ts) x
       = Inl (RuntimeError ''Boolean value of Tensor with more than one value is ambiguous'')"
  by (cases "elems t"; cases "tl (elems t)") (auto simp: tensor_equals_def)

lemma select_span_long_query:
  assumes "length (elems (fst (text_to_tensor tz txt None None None True))) \<ge> 2"
  shows "select_span_with_token txt tz token_str g
           = (Inl (RuntimeError ''Boolean value of Tensor with more than one value is ambiguous''), g)"
  using tuple_contains_long[OF assms]
  by (simp add: select_span_with_token_def Let_def)

lemma select_span_returns_tuple_only:
  assumes "select_span_with_token txt tz token_str g = (Inr v, g')"
  shows "v = text_to_tensor tz txt None None None True \<and> g' = g"
  using assms
  by (auto simp: select_span_with_token_def Let_def split: sum.splits if_splits)

lemma tensor_equals_error:
  "tensor_equals t x = Inl e \<Longrightarrow>
     e = RuntimeError ''Boolean value of Tensor with no values is ambiguous''
     \<or> e = RuntimeError ''Boolean value of Tensor with more than one value is ambiguous''"
  by (auto simp: tensor_equals_def split: list.splits)

lemma tuple_contains_error:
  "tuple_contains ts x = Inl e \<Longrightarrow>
     e = RuntimeError ''Boolean value of Tensor with no values is ambiguous''
     \<or> e = RuntimeError ''Boolean value of Tensor with more than one value is ambiguous''"
proof (induction ts)
  case Nil
  then show ?case by simp
next
  case (Cons t ts)
  then show ?case
    by (cases "tensor_equals t x") (auto dest: tensor_equals_error split: if_splits)
qed

lemma select_span_never_names_query:
  "fst (select_span_with_token txt tz token_str g)
     \<noteq> Inl (RuntimeError (not_found_message @ txt))"
proof
  assume a: "fst (select_span_with_token txt tz token_str g)
               = Inl (RuntimeError (not_found_message @ txt))"
  let ?q = "text_to_tensor tz txt None None None True"
  have "tuple_contains [fst ?q, fst (snd ?q), snd (snd ?q)] (get_token_id tz token_str)
          = Inl (RuntimeError (not_found_message @ txt))"
    using a by (auto simp: select_span_with_token_def Let_def split: sum.splits if_splits)
  from tuple_contains_error[OF this] show False
    by (simp add: not_found_message_def)
qed


section \<open>The layout of the flattened batch\<close>

lemma concat_uniform_row:
  assumes "\<forall>x\<in>set xss. length x = w" "k < length xss"
  shows "take w (drop (k * w) (concat xss)) = xss ! k"
  using assms
proof (induction xss arbitrary: k)
  case Nil
  then show ?case by simp
next
  case (Cons x xss)
  then show ?case by (cases k) simp_all
qed

lemma stack_rows_row:
  assumes "stack_rows ts = Inr T" "k < length ts"
  shows "tensor_row T k = elems (ts ! k)"
proof (cases ts)
  case Nil
  with assms show ?thesis by simp
next
  case (Cons t ts')
  have f: "filter (\<lambda>t. shape t \<noteq> [0]) (map view_row ts) = view_row t # map view_row ts'"
    using filter_view_row[of ts] Cons by simp
  have sh: "shape (view_row t) = [1, length (elems t)]" by (simp add: view_row_def)
  from assms have tc: "torch_cat (map view_row ts) = Inr T" by (simp add: stack_rows_def)
  have all: "list_all (\<lambda>u. length (shape u) = Suc (length [length (elems t)])
                          \<and> tl (shape u) = [length (elems t)]) (map view_row ts')"
    and T: "T = Tensor (sum_list (map (\<lambda>t. hd (shape t)) (view_row t # map view_row ts'))
                           # [length (elems t)])
                       (concat (map elems (view_row t # map view_row ts')))"
    using tc unfolding torch_cat_def f using Cons sh
    by (auto simp del: sum_list.Cons list.map split: if_splits)
  have w: "\<forall>x\<in>set (map elems ts). length x = length (elems t)"
    using all Cons by (auto simp: list_all_iff view_row_def)
  have e: "concat (map elems (view_row t # map view_row ts')) = concat (map elems ts)"
    using Cons by (simp add: view_row_def comp_def)
  have "tensor_row T k = take (length (elems t)) (drop (k * length (elems t)) (concat (map elems ts)))"
    unfolding T e by (simp add: tensor_row_def)
  also have "\<dots> = map elems ts ! k"
    using concat_uniform_row[OF w, of k] assms(2) by simp
  finally show ?thesis using assms(2) by simp
qed

lemma select_positive_chosen:
  assumes "select_positive s sh sp g = (Inr p, g1)"
  shows "p \<in> set (positive_passages s) \<and> (\<not> (sh \<and> sp) \<longrightarrow> p = hd (positive_passages s))"
proof (cases "sh \<and> sp")
  case True
  with assms have ne: "length (positive_passages s) \<noteq> 0"
    by (auto simp: select_positive_def np_random_choice_def split: if_splits)
  obtain k t where rb: "randbelow (length (positive_passages s)) (np_random g) = (k, t)"
    by (cases "randbelow (length (positive_passages s)) (np_random g)")
  have "k < length (positive_passages s)"
    using randbelow_less[of "length (positive_passages s)" "np_random g"] rb ne by simp
  then have "positive_passages s ! k \<in> set (positive_passages s)" by (rule nth_mem)
  with True rb assms ne show ?thesis
    by (auto simp: select_positive_def np_random_choice_def)
next
  case False
  with assms show ?thesis
    by (cases "positive_passages s") (auto simp: select_positive_def)
qed

lemma sample_ctxs_positive:
  assumes "sample_ctxs s nh no sh sp fb g = (Inr (p, neg, hard), s', g')"
  shows "p \<in> set (positive_passages s) \<and> (\<not> (sh \<and> sp) \<longrightarrow> p = hd (positive_passages s))"
proof -
  from assms obtain g1 where "select_positive s sh sp g = (Inr p, g1)"
    by (auto simp: sample_ctxs_def Let_def split: prod.splits sum.splits)
  then show ?thesis by (rule select_positive_chosen)
qed

lemma process_sample_layout:
  assumes "process_sample tz it nh no sh sp fb qt s a g = (Inr a', s', g')"
  shows "\<exists>p. p \<in> set (positive_passages s)
            \<and> (\<not> (sh \<and> sp) \<longrightarrow> p = hd (positive_passages s))
            \<and> ctx_tensors a' = ctx_tensors a
                 @ map (\<lambda>c. fst (ctx_to_tensor tz it c)) (p # slice_negatives nh no fb s')"
proof -
  from assms obtain p neg hard g1 where
    sc: "sample_ctxs s nh no sh sp fb g = (Inr (p, neg, hard), s', g1)" and
    eq: "encode_question (query s') tz qt (append_ctxs tz it a p neg hard) g1 = (Inr a', g')"
    by (rule process_sample_Inr)
  have "neg @ hard = slice_negatives nh no fb s'"
    using sample_ctxs_slices[OF sc] by (simp add: slice_negatives_def)
  then show ?thesis
    using encode_question_frame[OF eq] sample_ctxs_positive[OF sc]
    by (auto simp: append_ctxs_ctx_tensors)
qed

lemma process_samples_prefix:
  assumes "process_samples tz it nh no sh sp fb qt ss a g = (Inr a', ss', g')"
  shows "\<exists>X. ctx_tensors a' = ctx_tensors a @ X"
  using assms
proof (induction ss arbitrary: a g ss')
  case Nil
  then show ?case by simp
next
  case (Cons s ss)
  from Cons.prems obtain a1 s1 g1 ss1 where
    st: "process_sample tz it nh no sh sp fb qt s a g = (Inr a1, s1, g1)" and
    rest: "process_samples tz it nh no sh sp fb qt ss a1 g1 = (Inr a', ss1, g')"
    by (auto split: prod.splits sum.splits)
  from process_sample_layout[OF st] obtain X where a1: "ctx_tensors a1 = ctx_tensors a @ X"
    by blast
  from Cons.IH[OF rest] obtain Y where "ctx_tensors a' = ctx_tensors a1 @ Y" by blast
  with a1 show ?case by simp
qed

lemma process_samples_layout:
  assumes "process_samples tz it nh no sh sp fb qt ss a g = (Inr a', ss', g')"
    and "i < length ss"
  shows "\<exists>p. p \<in> set (positive_passages (ss ! i))
            \<and> (\<not> (sh \<and> sp) \<longrightarrow> p = hd (positive_passages (ss ! i)))
            \<and> (\<forall>j<num_ctxs nh no fb (ss ! i).
                  ctx_tensors a' ! (length (ctx_tensors a)
                                     + sum_list (map (num_ctxs nh no fb) (take i ss)) + j)
                    = fst (ctx_to_tensor tz it ((p # slice_negatives nh no fb (ss' ! i)) ! j)))"
  using assms
proof (induction ss arbitrary: a g ss' i)
  case Nil
  then show ?case by simp
next
  case (Cons s ss)
  from Cons.prems obtain a1 s1 g1 ss1 where
    st: "process_sample tz it nh no sh sp fb qt s a g = (Inr a1, s1, g1)" and
    rest: "process_samples tz it nh no sh sp fb qt ss a1 g1 = (Inr a', ss1, g')" and
    ss': "ss' = s1 # ss1"
    by (auto split: prod.splits sum.splits)
  note len1 = process_sample_indices[OF st, THEN conjunct1]
  show ?case
  proof (cases i)
    case 0
    from process_sample_layout[OF st] obtain p where
      p: "p \<in> set (positive_passages s)" "\<not> (sh \<and> sp) \<longrightarrow> p = hd (positive_passages s)" and
      a1: "ctx_tensors a1 = ctx_tensors a
             @ map (\<lambda>c. fst (ctx_to_tensor tz it c)) (p # slice_negatives nh no fb s1)"
      by blast
    have lenb: "length (p # slice_negatives nh no fb s1) = num_ctxs nh no fb s"
      using len1 a1 by simp
    have "ctx_tensors a' ! (length (ctx_tensors a) + j)
            = fst (ctx_to_tensor tz it ((p # slice_negatives nh no fb s1) ! j))"
      if j: "j < num_ctxs nh no fb s" for j
    proof -
      have lt: "length (ctx_tensors a) + j < length (ctx_tensors a1)" using len1 j by simp
      from process_samples_prefix[OF rest] obtain Y where
        Y: "ctx_tensors a' = ctx_tensors a1 @ Y" by blast
      have "ctx_tensors a' ! (length (ctx_tensors a) + j)
              = ctx_tensors a1 ! (length (ctx_tensors a) + j)"
        unfolding Y using lt by (simp only: nth_append if_True)
      also have "\<dots> = map (\<lambda>c. fst (ctx_to_tensor tz it c)) (p # slice_negatives nh no fb s1) ! j"
        unfolding a1 by (simp only: nth_append_length_plus)
      also have "\<dots> = fst (ctx_to_tensor tz it ((p # slice_negatives nh no fb s1) ! j))"
        using j lenb by (simp only: nth_map)
      finally show ?thesis .
    qed
    with p 0 ss' show ?thesis by auto
  next
    case (Suc i')
    with Cons.prems have i': "i' < length ss" by simp
    from Cons.IH[OF rest i'] len1 Suc ss' show ?thesis
      by (simp add: add.assoc)
  qed
qed


section \<open>Runs that return a batch\<close>

lemma torch_cat_total:
  assumes "ts \<noteq> []" "\<forall>t\<in>set ts. shape t = sh" "sh \<noteq> []"
  shows "\<exists>T. torch_cat ts = Inr T"
proof (cases "filter (\<lambda>t. shape t \<noteq> [0]) ts")
  case Nil
  with assms(1) show ?thesis by (simp add: torch_cat_def)
next
  case (Cons u us)
  have sub: "set (u # us) \<subseteq> set ts" unfolding Cons[symmetric] by auto
  obtain n ds where sh: "sh = n # ds" using assms(3) by (cases sh) auto
  have u: "shape u = n # ds" using sub assms(2) sh by auto
  have us: "list_all (\<lambda>t. length (shape t) = Suc (length ds) \<and> tl (shape t) = ds) us"
    using sub assms(2) sh by (auto simp: list_all_iff)
  show ?thesis using assms(1) Cons u us by (simp add: torch_cat_def)
qed

lemma stack_rows_total:
  assumes "ts \<noteq> []" "\<forall>t\<in>set ts. length (elems t) = n"
  shows "\<exists>T. stack_rows ts = Inr T"
  unfolding stack_rows_def
  by (rule torch_cat_total[where sh = "[1, n]"]) (use assms in \<open>auto simp: view_row_def\<close>)

lemma view_question_rows_tensors:
  "view_question_rows (map PyTensor ts) = Inr (map view_row ts)"
  by (induction ts) simp_all

lemma stack_question_rows_tensors:
  "stack_question_rows (map PyTensor ts) = stack_rows ts"
  by (simp add: stack_question_rows_def view_question_rows_tensors stack_rows_def)

lemma view_all_mentions_total:
  assumes "0 < L" "\<forall>t\<in>set ts. length (elems t) mod L = 0"
  shows "view_all_mentions L ts
           = Inr (map (\<lambda>t. Tensor [1, length (elems t) div L, L] (elems t)) ts)"
  using assms by (induction ts) (simp_all add: view_mentions_def)

lemma stack_position_ids_total:
  assumes "ts \<noteq> []"
    and "\<forall>t\<in>set ts. (case get_max_mention_length tz of
                          Some L \<Rightarrow> 0 < L \<and> length (elems t) = n3 \<and> n3 mod L = 0
                        | None \<Rightarrow> shape t = sh3 \<and> sh3 \<noteq> [])"
  shows "\<exists>T. stack_position_ids tz ts = Inr T"
proof (cases "get_max_mention_length tz")
  case None
  obtain t where "t \<in> set ts" using assms(1) by (cases ts) auto
  with assms(2) None have "sh3 \<noteq> []" by auto
  moreover have "\<forall>t\<in>set ts. shape t = sh3" using assms(2) None by auto
  ultimately show ?thesis
    using torch_cat_total[OF assms(1), of sh3] None by (simp add: stack_position_ids_def)
next
  case (Some L)
  obtain t where "t \<in> set ts" using assms(1) by (cases ts) auto
  with assms(2) Some have L: "0 < L" by auto
  have len: "\<forall>t\<in>set ts. length (elems t) = n3" and md: "\<forall>t\<in>set ts. length (elems t) mod L = 0"
    using assms(2) Some by auto
  have "\<exists>T. torch_cat (map (\<lambda>t. Tensor [1, length (elems t) div L, L] (elems t)) ts) = Inr T"
    by (rule torch_cat_total[where sh = "[1, n3 div L, L]"]) (use assms(1) len in auto)
  then show ?thesis
    using Some view_all_mentions_total[OF L md] by (simp add: stack_position_ids_def)
qed

lemma encode_question_total:
  assumes "qt \<noteq> Some ''[START_ENT]''"
  shows "\<exists>txt. encode_question q tz qt a g
           = (Inr (append_question a (text_to_tensor tz txt None (entities q) (entity_spans q) True)), g)"
  using assms by (auto simp: encode_question_def split: option.splits)

lemma sample_ctxs_total:
  assumes "positive_passages s \<noteq> []"
  shows "\<exists>p neg hard s' g'. sample_ctxs s nh no sh sp fb g = (Inr (p, neg, hard), s', g')"
proof -
  from select_positive_total[OF assms] obtain p g1 where
    "select_positive s sh sp g = (Inr p, g1)" by blast
  then show ?thesis
    by (simp add: sample_ctxs_def Let_def split: prod.splits)
qed

lemma process_sample_total:
  assumes "positive_passages s \<noteq> []" "qt \<noteq> Some ''[START_ENT]''"
  shows "\<exists>a' s' g' cs q.
           process_sample tz it nh no sh sp fb qt s a g = (Inr a', s', g')
           \<and> cs \<noteq> []
           \<and> ctx_tensors a' = ctx_tensors a @ map (\<lambda>c. fst (ctx_to_tensor tz it c)) cs
           \<and> ctx_entity_tensors a'
               = ctx_entity_tensors a @ map (\<lambda>c. fst (snd (ctx_to_tensor tz it c))) cs
           \<and> ctxs_entity_position_ids a'
               = ctxs_entity_position_ids a @ map (\<lambda>c. snd (snd (ctx_to_tensor tz it c))) cs
           \<and> question_tensors a' = question_tensors a @ [PyTensor (fst q)]
           \<and> question_entity_tensors a' = question_entity_tensors a @ [fst (snd q)]
           \<and> question_entity_position_ids_acc a'
               = question_entity_position_ids_acc a @ [snd (snd q)]
           \<and> (\<exists>txt ents spans. q = text_to_tensor tz txt None ents spans True)"
proof -
  from sample_ctxs_total[OF assms(1)] obtain p neg hard s' g1 where
    sc: "sample_ctxs s nh no sh sp fb g = (Inr (p, neg, hard), s', g1)" by blast
  let ?a1 = "append_ctxs tz it a p neg hard"
  from encode_question_total[OF assms(2)] obtain qtext where
    eq: "encode_question (query s') tz qt ?a1 g1
           = (Inr (append_question ?a1
                 (text_to_tensor tz qtext None (entities (query s')) (entity_spans (query s')) True)),
              g1)" by blast
  let ?q = "text_to_tensor tz qtext None (entities (query s')) (entity_spans (query s')) True"
  have run: "process_sample tz it nh no sh sp fb qt s a g = (Inr (append_question ?a1 ?q), s', g1)"
    using sc eq by (simp add: process_sample_def)
  have fields:
    "ctx_tensors (append_question ?a1 ?q)
       = ctx_tensors a @ map (\<lambda>c. fst (ctx_to_tensor tz it c)) (p # neg @ hard)"
    "ctx_entity_tensors (append_question ?a1 ?q)
       = ctx_entity_tensors a @ map (\<lambda>c. fst (snd (ctx_to_tensor tz it c))) (p # neg @ hard)"
    "ctxs_entity_position_ids (append_question ?a1 ?q)
       = ctxs_entity_position_ids a @ map (\<lambda>c. snd (snd (ctx_to_tensor tz it c))) (p # neg @ hard)"
    "question_tensors (append_question ?a1 ?q) = question_tensors a @ [PyTensor (fst ?q)]"
    "question_entity_tensors (append_question ?a1 ?q) = question_entity_tensors a @ [fst (snd ?q)]"
    "question_entity_position_ids_acc (append_question ?a1 ?q)
       = question_entity_position_ids_acc a @ [snd (snd ?q)]"
    by (simp_all add: append_question_def append_ctxs_def Let_def comp_def)
  show ?thesis
    apply (rule exI[of _ "append_question ?a1 ?q"], rule exI[of _ s'], rule exI[of _ g1])
    apply (rule exI[of _ "p # neg @ hard"], rule exI[of _ ?q])
    using run fields by blast
qed

lemma process_samples_total:
  assumes "list_all (\<lambda>s. positive_passages s \<noteq> []) ss" "qt \<noteq> Some ''[START_ENT]''"
  shows "\<exists>a' ss' g' cs qs.
           process_samples tz it nh no sh sp fb qt ss a g = (Inr a', ss', g')
           \<and> (ss \<noteq> [] \<longrightarrow> cs \<noteq> [] \<and> qs \<noteq> [])
           \<and> ctx_tensors a' = ctx_tensors a @ map (\<lambda>c. fst (ctx_to_tensor tz it c)) cs
           \<and> ctx_entity_tensors a'
               = ctx_entity_tensors a @ map (\<lambda>c. fst (snd (ctx_to_tensor tz it c))) cs
           \<and> ctxs_entity_position_ids a'
               = ctxs_entity_position_ids a @ map (\<lambda>c. snd (snd (ctx_to_tensor tz it c))) cs
           \<and> question_tensors a' = question_tensors a @ map (\<lambda>q. PyTensor (fst q)) qs
           \<and> question_entity_tensors a' = question_entity_tensors a @ map (\<lambda>q. fst (snd q)) qs
           \<and> question_entity_position_ids_acc a'
               = question_entity_position_ids_acc a @ map (\<lambda>q. snd (snd q)) qs
           \<and> (\<forall>q\<in>set qs. \<exists>txt ents spans. q = text_to_tensor tz txt None ents spans True)"
  using assms(1)
proof (induction ss arbitrary: a g)
  case Nil
  show ?case
    apply (rule exI[of _ a], rule exI[of _ "[]"], rule exI[of _ g])
    apply (rule exI[of _ "[]"], rule exI[of _ "[]"])
    by simp
next
  case (Cons s ss)
  from Cons.prems have s: "positive_passages s \<noteq> []"
    and ss: "list_all (\<lambda>s. positive_passages s \<noteq> []) ss" by simp_all
  from process_sample_total[OF s assms(2), of tz it nh no sh sp fb a g]
  obtain a1 s1 g1 cs1 q1 where
    st: "process_sample tz it nh no sh sp fb qt s a g = (Inr a1, s1, g1)" and
    c1: "cs1 \<noteq> []" and
    f1: "ctx_tensors a1 = ctx_tensors a @ map (\<lambda>c. fst (ctx_to_tensor tz it c)) cs1"
        "ctx_entity_tensors a1
           = ctx_entity_tensors a @ map (\<lambda>c. fst (snd (ctx_to_tensor tz it c))) cs1"
        "ctxs_entity_position_ids a1
           = ctxs_entity_position_ids a @ map (\<lambda>c. snd (snd (ctx_to_tensor tz it c))) cs1"
        "question_tensors a1 = question_tensors a @ [PyTensor (fst q1)]"
        "question_entity_tensors a1 = question_entity_tensors a @ [fst (snd q1)]"
        "question_entity_position_ids_acc a1
           = question_entity_position_ids_acc a @ [snd (snd q1)]" and
    q1: "\<exists>txt ents spans. q1 = text_to_tensor tz txt None ents spans True"
    by blast
  from Cons.IH[OF ss, of a1 g1]
  obtain a2 ss2 g2 cs2 qs2 where
    rest: "process_samples tz it nh no sh sp fb qt ss a1 g1 = (Inr a2, ss2, g2)" and
    f2: "ctx_tensors a2 = ctx_tensors a1 @ map (\<lambda>c. fst (ctx_to_tensor tz it c)) cs2"
        "ctx_entity_tensors a2
           = ctx_entity_tensors a1 @ map (\<lambda>c. fst (snd (ctx_to_tensor tz it c))) cs2"
        "ctxs_entity_position_ids a2
           = ctxs_entity_position_ids a1 @ map (\<lambda>c. snd (snd (ctx_to_tensor tz it c))) cs2"
        "question_tensors a2 = question_tensors a1 @ map (\<lambda>q. PyTensor (fst q)) qs2"
        "question_entity_tensors a2 = question_entity_tensors a1 @ map (\<lambda>q. fst (snd q)) qs2"
        "question_entity_position_ids_acc a2
           = question_entity_position_ids_acc a1 @ map (\<lambda>q. snd (snd q)) qs2" and
    q2: "\<forall>q\<in>set qs2. \<exists>txt ents spans. q = text_to_tensor tz txt None ents spans True"
    by blast
  have run: "process_samples tz it nh no sh sp fb qt (s # ss) a g = (Inr a2, s1 # ss2, g2)"
    using st rest by simp
  have qs: "\<forall>q\<in>set (q1 # qs2). \<exists>txt ents spans. q = text_to_tensor tz txt None ents spans True"
    using q1 q2 by simp
  show ?case
    apply (rule exI[of _ a2], rule exI[of _ "s1 # ss2"], rule exI[of _ g2])
    apply (rule exI[of _ "cs1 @ cs2"], rule exI[of _ "q1 # qs2"])
    apply (intro conjI)
    subgoal by (rule run)
    subgoal using c1 by simp
    subgoal using f1(1) f2(1) by simp
    subgoal using f1(2) f2(2) by simp
    subgoal using f1(3) f2(3) by simp
    subgoal using f1(4) f2(4) by simp
    subgoal using f1(5) f2(5) by simp
    subgoal using f1(6) f2(6) by simp
    subgoal by (rule qs)
    done
qed

lemma create_biencoder_input_total:
  assumes shapes: "\<And>txt ttl ents spans.
      length (elems (fst (text_to_tensor tz txt ttl ents spans True))) = n1
      \<and> length (elems (fst (snd (text_to_tensor tz txt ttl ents spans True)))) = n2
      \<and> (case get_max_mention_length tz of
            Some L \<Rightarrow> 0 < L \<and> length (elems (snd (snd (text_to_tensor tz txt ttl ents spans True)))) = n3
                      \<and> n3 mod L = 0
          | None \<Rightarrow> shape (snd (snd (text_to_tensor tz txt ttl ents spans True))) = sh3 \<and> sh3 \<noteq> [])"
    and "samples \<noteq> []" "list_all (\<lambda>s. positive_passages s \<noteq> []) samples"
    and "qt \<noteq> Some ''[START_ENT]''"
  shows "\<exists>b samples' g'. create_biencoder_input samples tz it nh no sh sp fb qt g = (Inr b, samples', g')"
proof -
  from process_samples_total[OF assms(3,4), of tz it nh no sh sp fb empty_acc g]
  obtain a ss' g' cs qs where
    run: "process_samples tz it nh no sh sp fb qt samples empty_acc g = (Inr a, ss', g')" and
    ne: "cs \<noteq> []" "qs \<noteq> []" and
    f: "ctx_tensors a = map (\<lambda>c. fst (ctx_to_tensor tz it c)) cs"
       "ctx_entity_tensors a = map (\<lambda>c. fst (snd (ctx_to_tensor tz it c))) cs"
       "ctxs_entity_position_ids a = map (\<lambda>c. snd (snd (ctx_to_tensor tz it c))) cs"
       "question_tensors a = map PyTensor (map fst qs)"
       "question_entity_tensors a = map (\<lambda>q. fst (snd q)) qs"
       "question_entity_position_ids_acc a = map (\<lambda>q. snd (snd q)) qs" and
    q: "\<forall>q\<in>set qs. \<exists>txt ents spans. q = text_to_tensor tz txt None ents spans True"
    using assms(2) by (auto simp: empty_acc_def comp_def)
  obtain T1 where T1: "stack_rows (ctx_tensors a) = Inr T1"
    using stack_rows_total[of "ctx_tensors a" n1] ne shapes
    by (auto simp: f ctx_to_tensor_def)
  obtain T2 where T2: "stack_rows (ctx_entity_tensors a) = Inr T2"
    using stack_rows_total[of "ctx_entity_tensors a" n2] ne shapes
    by (auto simp: f ctx_to_tensor_def)
  obtain T3 where T3: "stack_question_rows (question_tensors a) = Inr T3"
    using stack_rows_total[of "map fst qs" n1] ne shapes q
    unfolding f stack_question_rows_tensors by fastforce
  obtain T4 where T4: "stack_rows (question_entity_tensors a) = Inr T4"
    using stack_rows_total[of "question_entity_tensors a" n2] ne shapes q
    unfolding f by fastforce
  have pos: "case get_max_mention_length tz of
               Some L \<Rightarrow> 0 < L \<and> length (elems (snd (snd (text_to_tensor tz x y z w True)))) = n3
                         \<and> n3 mod L = 0
             | None \<Rightarrow> shape (snd (snd (text_to_tensor tz x y z w True))) = sh3 \<and> sh3 \<noteq> []"
    for x y z w using shapes[of x y z w] by simp
  have q3: "\<forall>t\<in>set (map (\<lambda>q. snd (snd q)) qs).
              (case get_max_mention_length tz of
                 Some L \<Rightarrow> 0 < L \<and> length (elems t) = n3 \<and> n3 mod L = 0
               | None \<Rightarrow> shape t = sh3 \<and> sh3 \<noteq> [])"
  proof
    fix t assume "t \<in> set (map (\<lambda>q. snd (snd q)) qs)"
    then obtain q0 where "q0 \<in> set qs" and t: "t = snd (snd q0)" by auto
    with q obtain x z w where "q0 = text_to_tensor tz x None z w True" by blast
    with t have t': "t = snd (snd (text_to_tensor tz x None z w True))" by simp
    show "case get_max_mention_length tz of
            Some L \<Rightarrow> 0 < L \<and> length (elems t) = n3 \<and> n3 mod L = 0
          | None \<Rightarrow> shape t = sh3 \<and> sh3 \<noteq> []"
      unfolding t' by (rule pos)
  qed
  have c3: "\<forall>t\<in>set (map (\<lambda>c. snd (snd (ctx_to_tensor tz it c))) cs).
              (case get_max_mention_length tz of
                 Some L \<Rightarrow> 0 < L \<and> length (elems t) = n3 \<and> n3 mod L = 0
               | None \<Rightarrow> shape t = sh3 \<and> sh3 \<noteq> [])"
  proof
    fix t assume "t \<in> set (map (\<lambda>c. snd (snd (ctx_to_tensor tz it c))) cs)"
    then obtain c where t: "t = snd (snd (ctx_to_tensor tz it c))" by auto
    show "case get_max_mention_length tz of
            Some L \<Rightarrow> 0 < L \<and> length (elems t) = n3 \<and> n3 mod L = 0
          | None \<Rightarrow> shape t = sh3 \<and> sh3 \<noteq> []"
      unfolding t ctx_to_tensor_def by (rule pos)
  qed
  obtain T5 where T5: "stack_position_ids tz (question_entity_position_ids_acc a) = Inr T5"
    using stack_position_ids_total[OF _ q3] ne unfolding f by auto
  obtain T6 where T6: "stack_position_ids tz (ctxs_entity_position_ids a) = Inr T6"
    using stack_position_ids_total[OF _ c3] ne unfolding f by auto
  show ?thesis
    using run T1 T2 T3 T4 T5 T6 by (simp add: create_biencoder_input_def build_batch_def)
qed

section \<open>The recorded positive index\<close>

text \<open>
  Claim C3. Whenever \<open>create_biencoder_input\<close> returns a batch, it has recorded one positive
  index per sample; the index recorded for sample \<open>i\<close> is the number of passages that the
  samples before it contribute to the flattened batch, and the batch has as many passage rows
  as all samples contribute together. The rows from that index on are the slice of sample
  \<open>i\<close>: first the tokens of its positive passage (the first positive, or one of the
  positives when both \<open>shuffle\<close> and \<open>shuffle_positives\<close> are set), then those of the
  negatives kept from the pools as the call leaves them. And the call does return a batch for
  every non-empty list of samples with a positive passage each, outside span-selection mode,
  when the outputs of the tensorizer have a fixed size.
\<close>

theorem positive_index_is_offset:
  "(\<forall>b samples' g'.
      create_biencoder_input samples tz it nh no sh sp fb qt g = (Inr b, samples', g') \<longrightarrow>
        length (is_positive b) = length samples
        \<and> hd (shape (context_ids b)) = sum_list (map (num_ctxs nh no fb) samples)
        \<and> (\<forall>i<length samples.
              is_positive b ! i = sum_list (map (num_ctxs nh no fb) (take i samples))
              \<and> (\<exists>p. p \<in> set (positive_passages (samples ! i))
                     \<and> (\<not> (sh \<and> sp) \<longrightarrow> p = hd (positive_passages (samples ! i)))
                     \<and> (\<forall>j<num_ctxs nh no fb (samples ! i).
                           tensor_row (context_ids b) (is_positive b ! i + j)
                             = elems (fst (ctx_to_tensor tz it
                                 ((p # slice_negatives nh no fb (samples' ! i)) ! j)))))))
   \<and> ((\<forall>txt ttl ents spans.
          length (elems (fst (text_to_tensor tz txt ttl ents spans True))) = n1
          \<and> length (elems (fst (snd (text_to_tensor tz txt ttl ents spans True)))) = n2
          \<and> (case get_max_mention_length tz of
                Some L \<Rightarrow> 0 < L
                  \<and> length (elems (snd (snd (text_to_tensor tz txt ttl ents spans True)))) = n3
                  \<and> n3 mod L = 0
              | None \<Rightarrow> shape (snd (snd (text_to_tensor tz txt ttl ents spans True))) = sh3
                  \<and> sh3 \<noteq> []))
       \<and> samples \<noteq> [] \<and> list_all (\<lambda>s. positive_passages s \<noteq> []) samples
       \<and> qt \<noteq> Some ''[START_ENT]''
       \<longrightarrow> (\<exists>b samples' g'.
              create_biencoder_input samples tz it nh no sh sp fb qt g = (Inr b, samples', g')))"
proof (intro conjI allI impI)
  fix b samples' g'
  assume run: "create_biencoder_input samples tz it nh no sh sp fb qt g = (Inr b, samples', g')"
  from run obtain a where
    ps: "process_samples tz it nh no sh sp fb qt samples empty_acc g = (Inr a, samples', g')"
    and bb: "build_batch tz a = Inr b"
    by (rule create_biencoder_input_Inr)
  have e: "ctx_tensors empty_acc = []" "positive_ctx_indices empty_acc = []"
    by (simp_all add: empty_acc_def)
  from process_samples_indices[OF ps] e
  have len: "length (ctx_tensors a) = sum_list (map (num_ctxs nh no fb) samples)"
    and pos: "positive_ctx_indices a = offsets nh no fb 0 samples"
    by simp_all
  from build_batch_fields[OF bb]
  have ip: "is_positive b = positive_ctx_indices a"
    and st: "stack_rows (ctx_tensors a) = Inr (context_ids b)" by simp_all
  show "length (is_positive b) = length samples"
    using ip pos by (simp add: length_offsets)
  show "hd (shape (context_ids b)) = sum_list (map (num_ctxs nh no fb) samples)"
    using len stack_rows_count[OF st] by simp
  fix i assume i: "i < length samples"
  show idx: "is_positive b ! i = sum_list (map (num_ctxs nh no fb) (take i samples))"
    using ip pos i by (simp add: offsets_nth)
  from process_samples_layout[OF ps i] e obtain p where
    p: "p \<in> set (positive_passages (samples ! i))"
       "\<not> (sh \<and> sp) \<longrightarrow> p = hd (positive_passages (samples ! i))" and
    rows: "\<And>j. j < num_ctxs nh no fb (samples ! i) \<Longrightarrow>
             ctx_tensors a ! (sum_list (map (num_ctxs nh no fb) (take i samples)) + j)
               = fst (ctx_to_tensor tz it ((p # slice_negatives nh no fb (samples' ! i)) ! j))"
    by auto
  have bound: "sum_list (map (num_ctxs nh no fb) (take i samples)) + j < length (ctx_tensors a)"
    if j: "j < num_ctxs nh no fb (samples ! i)" for j
  proof -
    have "samples = take i samples @ samples ! i # drop (Suc i) samples"
      using i by (rule id_take_nth_drop)
    then have "sum_list (map (num_ctxs nh no fb) samples)
                 = sum_list (map (num_ctxs nh no fb) (take i samples))
                   + num_ctxs nh no fb (samples ! i)
                   + sum_list (map (num_ctxs nh no fb) (drop (Suc i) samples))"
      by (metis add.assoc list.simps(9) map_append sum_list.Cons sum_list_append)
    with len j show ?thesis by simp
  qed
  have "tensor_row (context_ids b) (is_positive b ! i + j)
          = elems (fst (ctx_to_tensor tz it ((p # slice_negatives nh no fb (samples' ! i)) ! j)))"
    if j: "j < num_ctxs nh no fb (samples ! i)" for j
    using stack_rows_row[OF st bound[OF j]] rows[OF j] idx by simp
  with p show "\<exists>p. p \<in> set (positive_passages (samples ! i))
                 \<and> (\<not> (sh \<and> sp) \<longrightarrow> p = hd (positive_passages (samples ! i)))
                 \<and> (\<forall>j<num_ctxs nh no fb (samples ! i).
                       tensor_row (context_ids b) (is_positive b ! i + j)
                         = elems (fst (ctx_to_tensor tz it
                             ((p # slice_negatives nh no fb (samples' ! i)) ! j))))"
    by blast
next
  assume h: "(\<forall>txt ttl ents spans.
          length (elems (fst (text_to_tensor tz txt ttl ents spans True))) = n1
          \<and> length (elems (fst (snd (text_to_tensor tz txt ttl ents spans True)))) = n2
          \<and> (case get_max_mention_length tz of
                Some L \<Rightarrow> 0 < L
                  \<and> length (elems (snd (snd (text_to_tensor tz txt ttl ents spans True)))) = n3
                  \<and> n3 mod L = 0
              | None \<Rightarrow> shape (snd (snd (text_to_tensor tz txt ttl ents spans True))) = sh3
                  \<and> sh3 \<noteq> []))
       \<and> samples \<noteq> [] \<and> list_all (\<lambda>s. positive_passages s \<noteq> []) samples
       \<and> qt \<noteq> Some ''[START_ENT]''"
  show "\<exists>b samples' g'.
          create_biencoder_input samples tz it nh no sh sp fb qt g = (Inr b, samples', g')"
    by (rule create_biencoder_input_total[where ?n1.0 = n1 and ?n2.0 = n2 and ?n3.0 = n3
                                            and ?sh3.0 = sh3])
       (use h in simp_all)
qed

theorem positive_index_is_offset_witness:
  "create_biencoder_input example_samples padded_tensorizer False 1 1 True False True None
     example_rng = (Inr padded_batch, example_samples_shuffled, example_rng\<lparr>py_random := [1]\<rparr>)
   \<and> is_positive padded_batch = [0, 3]
   \<and> map (num_ctxs 1 1 True) example_samples = [3, 3]
   \<and> is_positive padded_batch ! 1
       = sum_list (map (num_ctxs 1 1 True) (take 1 example_samples))
   \<and> hd (shape (context_ids padded_batch)) = sum_list (map (num_ctxs 1 1 True) example_samples)
   \<and> tensor_row (context_ids padded_batch) (is_positive padded_batch ! 1 + 0)
       = elems (fst (ctx_to_tensor padded_tensorizer False (psg ''e'')))
   \<and> tensor_row (context_ids padded_batch) (is_positive padded_batch ! 1 + 1)
       = elems (fst (ctx_to_tensor padded_tensorizer False (psg ''g'')))
   \<and> tensor_row (context_ids padded_batch) 3 = [101, 0]
   \<and> (\<exists>b samples' g'.
         create_biencoder_input example_samples padded_tensorizer False 1 1 True False True None
           example_rng = (Inr b, samples', g'))"
proof -
  note inst = positive_index_is_offset[where samples = example_samples and tz = padded_tensorizer
      and it = False and nh = 1 and no = 1 and sh = True and sp = False and fb = True
      and qt = None and g = example_rng and ?n1.0 = 2 and ?n2.0 = 1 and ?n3.0 = 1
      and ?sh3.0 = "[]"]
  have run: "create_biencoder_input example_samples padded_tensorizer False 1 1 True False
               True None example_rng
             = (Inr padded_batch, example_samples_shuffled, example_rng\<lparr>py_random := [1]\<rparr>)"
    by code_simp
  have counts: "map (num_ctxs 1 1 True) example_samples = [3, 3]"
    by code_simp
  have idx: "is_positive padded_batch = [0, 3]"
    by (simp add: padded_batch_def)
  have one: "(1::nat) < length example_samples"
    by (simp add: example_samples_def)
  have shapes: "\<forall>txt ttl ents spans.
          length (elems (fst (text_to_tensor padded_tensorizer txt ttl ents spans True))) = 2
          \<and> length (elems (fst (snd (text_to_tensor padded_tensorizer txt ttl ents spans True)))) = 1
          \<and> (case get_max_mention_length padded_tensorizer of
                Some L \<Rightarrow> 0 < L
                  \<and> length (elems (snd (snd (text_to_tensor padded_tensorizer txt ttl ents spans True)))) = 1
                  \<and> 1 mod L = 0
              | None \<Rightarrow> shape (snd (snd (text_to_tensor padded_tensorizer txt ttl ents spans True))) = []
                  \<and> [] \<noteq> ([]::nat list))"
    by (auto simp: padded_tensorizer_def)
  have pre: "example_samples \<noteq> [] \<and> list_all (\<lambda>s. positive_passages s \<noteq> []) example_samples
             \<and> None \<noteq> Some ''[START_ENT]''"
    by (simp add: example_samples_def)
  from inst shapes pre have total:
    "\<exists>b samples' g'.
       create_biencoder_input example_samples padded_tensorizer False 1 1 True False True None
         example_rng = (Inr b, samples', g')"
    by blast
  from inst run one have part:
    "hd (shape (context_ids padded_batch)) = sum_list (map (num_ctxs 1 1 True) example_samples)
     \<and> is_positive padded_batch ! 1 = sum_list (map (num_ctxs 1 1 True) (take 1 example_samples))
     \<and> (\<exists>p. p \<in> set (positive_passages (example_samples ! 1))
            \<and> (\<not> (True \<and> False) \<longrightarrow> p = hd (positive_passages (example_samples ! 1)))
            \<and> (\<forall>j<num_ctxs 1 1 True (example_samples ! 1).
                  tensor_row (context_ids padded_batch) (is_positive padded_batch ! 1 + j)
                    = elems (fst (ctx_to_tensor padded_tensorizer False
                        ((p # slice_negatives 1 1 True (example_samples_shuffled ! 1)) ! j)))))"
    by blast
  have p: "hd (positive_passages (example_samples ! 1)) = psg ''e''"
    by (simp add: example_samples_def)
  have n: "num_ctxs 1 1 True (example_samples ! 1) = 3"
    by code_simp
  have sl: "slice_negatives 1 1 True (example_samples_shuffled ! 1) = [psg ''g'', psg ''g'']"
    by code_simp
  from part obtain p0 where
    pe: "\<not> (True \<and> False) \<longrightarrow> p0 = hd (positive_passages (example_samples ! 1))" and
    all: "\<forall>j<num_ctxs 1 1 True (example_samples ! 1).
            tensor_row (context_ids padded_batch) (is_positive padded_batch ! 1 + j)
              = elems (fst (ctx_to_tensor padded_tensorizer False
                  ((p0 # slice_negatives 1 1 True (example_samples_shuffled ! 1)) ! j)))"
    by blast
  from pe p have pp: "p0 = psg ''e''" by simp
  have rows:
    "tensor_row (context_ids padded_batch) (is_positive padded_batch ! 1 + 0)
       = elems (fst (ctx_to_tensor padded_tensorizer False (psg ''e'')))"
    "tensor_row (context_ids padded_batch) (is_positive padded_batch ! 1 + 1)
       = elems (fst (ctx_to_tensor padded_tensorizer False (psg ''g'')))"
    using all[rule_format, of 0] all[rule_format, of 1] unfolding n sl pp by simp_all
  have r3: "tensor_row (context_ids padded_batch) 3 = [101, 0]"
    by code_simp
  from run idx counts part rows r3 total show ?thesis by blast
qed

section \<open>Shuffling list objects\<close>

subsection \<open>Fisher-Yates reaches every permutation\<close>

lemma randbelow_tape: "j < n \<Longrightarrow> randbelow n (int j # t) = (j, t)"
  by (simp add: randbelow_def)

lemma mset_take_swap:
  assumes "a < n" "b < n" "n \<le> length xs"
  shows "mset (take n (xs[a := xs ! b, b := xs ! a])) = mset (take n xs)"
proof -
  have "take n (xs[a := xs ! b, b := xs ! a])
          = (take n xs)[a := take n xs ! b, b := take n xs ! a]"
    using assms by (simp add: take_update_swap)
  moreover have "mset ((take n xs)[a := take n xs ! b, b := take n xs ! a]) = mset (take n xs)"
    using assms by (intro mset_swap) simp_all
  ultimately show ?thesis by simp
qed

lemma shuffle_from_reaches:
  assumes "i < length xs" "length ys = length xs"
    and "drop (Suc i) ys = drop (Suc i) xs"
    and "mset (take (Suc i) ys) = mset (take (Suc i) xs)"
  shows "\<exists>t. \<forall>t'. shuffle_from i xs (t @ t') = (ys, t')"
  using assms
proof (induction i arbitrary: xs)
  case 0
  have "take 1 ys = take 1 xs"
    using 0 by (cases xs; cases ys) auto
  then have "ys = xs"
    using 0(3) by (metis One_nat_def append_take_drop_id)
  then show ?case by (intro exI[of _ "[]"]) simp
next
  case (Suc i)
  let ?k = "Suc i"
  have lys: "?k < length ys" using Suc.prems by simp
  have "ys ! ?k \<in> set (take (Suc ?k) ys)"
    using lys by (metis in_set_conv_nth length_take lessI min.absorb2 nth_take Suc_leI)
  then have "ys ! ?k \<in> set (take (Suc ?k) xs)"
    using Suc.prems(4) by (metis set_mset_mset)
  then obtain j where j: "j < Suc ?k" "xs ! j = ys ! ?k"
    using Suc.prems(1) by (auto simp: in_set_conv_nth)
  define xs' where "xs' = xs[?k := xs ! j, j := xs ! ?k]"
  have len': "length xs' = length xs" by (simp add: xs'_def)
  have at: "xs' ! ?k = ys ! ?k"
    using j Suc.prems(1) by (cases "j = ?k") (simp_all add: xs'_def)
  have above: "drop (Suc ?k) xs' = drop (Suc ?k) xs"
    using j by (simp add: xs'_def drop_update_cancel)
  have d: "drop ?k ys = drop ?k xs'"
  proof -
    have "drop ?k ys = ys ! ?k # drop (Suc ?k) ys" using lys by (simp add: Cons_nth_drop_Suc)
    moreover have "drop ?k xs' = xs' ! ?k # drop (Suc ?k) xs'"
      using Suc.prems(1) len' by (simp add: Cons_nth_drop_Suc)
    ultimately show ?thesis using at above Suc.prems(3) by simp
  qed
  have m2: "mset (take (Suc ?k) xs') = mset (take (Suc ?k) xs)"
    unfolding xs'_def using j Suc.prems(1)
    by (intro mset_take_swap) simp_all
  have ty: "take (Suc ?k) ys = take ?k ys @ [ys ! ?k]"
    using lys by (rule take_Suc_conv_app_nth)
  have tx: "take (Suc ?k) xs' = take ?k xs' @ [xs' ! ?k]"
    using Suc.prems(1) len' by (intro take_Suc_conv_app_nth) simp
  have "mset (take ?k ys @ [ys ! ?k]) = mset (take ?k xs' @ [xs' ! ?k])"
    using m2 Suc.prems(4) unfolding ty[symmetric] tx[symmetric] by simp
  then have m: "mset (take ?k ys) = mset (take ?k xs')" using at by simp
  have "i < length xs'" using Suc.prems(1) len' by simp
  from Suc.IH[OF this _ d m] Suc.prems(2) len'
  obtain t0 where t0: "\<forall>t'. shuffle_from i xs' (t0 @ t') = (ys, t')" by auto
  have "shuffle_from ?k xs ((int j # t0) @ t') = (ys, t')" for t'
    using t0 j(1) by (simp add: randbelow_tape xs'_def)
  then show ?case by blast
qed

lemma random_shuffle_reaches:
  assumes "mset ys = mset xs"
  shows "\<exists>t. \<forall>t' g. py_random g = t @ t' \<longrightarrow> random_shuffle xs g = (ys, g\<lparr>py_random := t'\<rparr>)"
proof (cases xs)
  case Nil
  with assms have "ys = []" by simp
  with Nil show ?thesis
    by (intro exI[of _ "[]"]) (simp add: random_shuffle_def)
next
  case (Cons x xs')
  have len: "length ys = length xs" using assms by (metis size_mset)
  have "\<exists>t. \<forall>t'. shuffle_from (length xs - 1) xs (t @ t') = (ys, t')"
    by (rule shuffle_from_reaches) (use Cons len assms in simp_all)
  then obtain t where "\<forall>t'. shuffle_from (length xs - 1) xs (t @ t') = (ys, t')" by blast
  then show ?thesis
    by (intro exI[of _ t]) (simp add: random_shuffle_def)
qed


subsection \<open>What a call changes in the heap\<close>

lemma shuffle_at_frame:
  assumes "shuffle_at r h g = (h', g')"
  shows "(\<forall>a. mset (h' a) = mset (h a)) \<and> (\<forall>a. a \<noteq> r \<longrightarrow> h' a = h a)"
proof -
  obtain ys g1 where rs: "random_shuffle (h r) g = (ys, g1)"
    by (cases "random_shuffle (h r) g")
  with assms have h': "h' = h(r := ys)" by (simp add: shuffle_at_def)
  from random_shuffle_mset[OF rs] show ?thesis unfolding h' by simp
qed

lemma sample_ctxs_heap_frame:
  assumes "sample_ctxs_heap s nh no sh sp fb h g = (r, h', g')"
  shows "(\<forall>a. mset (h' a) = mset (h a))
         \<and> (\<forall>a. a \<noteq> negative_passages_ref s \<and> a \<noteq> hard_negative_passages_ref s
                 \<longrightarrow> h' a = h a)"
proof (cases "select_positive (load h s) sh sp g")
  case (Pair r0 g1)
  show ?thesis
  proof (cases r0)
    case (Inl e)
    with assms Pair show ?thesis by (simp add: sample_ctxs_heap_def)
  next
    case (Inr p)
    obtain h1 g2 where s1:
      "(if sh then shuffle_at (negative_passages_ref s) h g1 else (h, g1)) = (h1, g2)"
      by (cases "if sh then shuffle_at (negative_passages_ref s) h g1 else (h, g1)")
    obtain h2 g3 where s2:
      "(if sh then shuffle_at (hard_negative_passages_ref s) h1 g2 else (h1, g2)) = (h2, g3)"
      by (cases "if sh then shuffle_at (hard_negative_passages_ref s) h1 g2 else (h1, g2)")
    have h': "h' = h2"
      using assms Pair Inr s1 s2 by (simp add: sample_ctxs_heap_def Let_def)
    have f1: "(\<forall>a. mset (h1 a) = mset (h a))
              \<and> (\<forall>a. a \<noteq> negative_passages_ref s \<longrightarrow> h1 a = h a)"
      using s1 shuffle_at_frame[of "negative_passages_ref s" h g1 h1 g2]
      by (cases sh) auto
    have f2: "(\<forall>a. mset (h2 a) = mset (h1 a))
              \<and> (\<forall>a. a \<noteq> hard_negative_passages_ref s \<longrightarrow> h2 a = h1 a)"
      using s2 shuffle_at_frame[of "hard_negative_passages_ref s" h1 g2 h2 g3]
      by (cases sh) auto
    from f1 f2 show ?thesis unfolding h' by simp
  qed
qed

lemma process_sample_heap_frame:
  assumes "process_sample_heap tz it nh no sh sp fb qt s a h g = (r, h', g')"
  shows "(\<forall>a. mset (h' a) = mset (h a))
         \<and> (\<forall>a. a \<noteq> negative_passages_ref s \<and> a \<noteq> hard_negative_passages_ref s
                 \<longrightarrow> h' a = h a)"
proof (cases "sample_ctxs_heap s nh no sh sp fb h g")
  case (fields r1 h1 g1)
  from assms fields have "h' = h1"
    by (auto simp: process_sample_heap_def split: sum.splits prod.splits)
  with sample_ctxs_heap_frame[OF fields] show ?thesis by simp
qed

lemma process_samples_heap_frame:
  assumes "process_samples_heap tz it nh no sh sp fb qt ss a h g = (r, h', g')"
  shows "(\<forall>a. mset (h' a) = mset (h a)) \<and> (\<forall>a. a \<notin> set (pool_refs ss) \<longrightarrow> h' a = h a)"
  using assms
proof (induction ss arbitrary: a h g)
  case Nil
  then show ?case by simp
next
  case (Cons s ss)
  obtain r1 h1 g1 where st: "process_sample_heap tz it nh no sh sp fb qt s a h g = (r1, h1, g1)"
    by (cases "process_sample_heap tz it nh no sh sp fb qt s a h g")
  note f1 = process_sample_heap_frame[OF st]
  show ?case
  proof (cases r1)
    case (Inl e)
    with Cons.prems st have "h' = h1" by simp
    with f1 show ?thesis by (simp add: pool_refs_def)
  next
    case (Inr a1)
    with Cons.prems st have
      "process_samples_heap tz it nh no sh sp fb qt ss a1 h1 g1 = (r, h', g')" by simp
    from Cons.IH[OF this] f1 show ?thesis by (simp add: pool_refs_def)
  qed
qed

lemma create_biencoder_input_heap_frame:
  assumes "create_biencoder_input_heap ss tz it nh no sh sp fb qt h g = (r, h', g')"
  shows "(\<forall>a. mset (h' a) = mset (h a)) \<and> (\<forall>a. a \<notin> set (pool_refs ss) \<longrightarrow> h' a = h a)"
proof -
  obtain r1 where
    "process_samples_heap tz it nh no sh sp fb qt ss empty_acc h g = (r1, h', g')"
    using assms by (auto simp: create_biencoder_input_heap_def split: prod.splits sum.splits)
  then show ?thesis by (rule process_samples_heap_frame)
qed

lemma unshuffled_heap:
  assumes "process_samples_heap tz it nh no False sp fb qt ss a h g = (r, h', g')"
  shows "h' = h"
  using assms
proof (induction ss arbitrary: a h g)
  case Nil
  then show ?case by simp
next
  case (Cons s ss)
  obtain r1 h1 g1 where st:
    "process_sample_heap tz it nh no False sp fb qt s a h g = (r1, h1, g1)"
    by (cases "process_sample_heap tz it nh no False sp fb qt s a h g")
  then have h1: "h1 = h"
    by (auto simp: process_sample_heap_def sample_ctxs_heap_def Let_def
             split: sum.splits prod.splits)
  show ?case
  proof (cases r1)
    case (Inl e)
    with Cons.prems st h1 show ?thesis by simp
  next
    case (Inr a1)
    with Cons.prems st have
      "process_samples_heap tz it nh no False sp fb qt ss a1 h1 g1 = (r, h', g')" by simp
    from Cons.IH[OF this] h1 show ?thesis by simp
  qed
qed

subsection \<open>Every order of the pools is reached\<close>

lemma shuffle_at_reaches:
  assumes "mset ys = mset (h r)"
  shows "\<exists>t. \<forall>t' g. py_random g = t @ t'
              \<longrightarrow> shuffle_at r h g = (h(r := ys), g\<lparr>py_random := t'\<rparr>)"
proof -
  from random_shuffle_reaches[where xs = "h r" and ys = ys, OF assms] obtain t where
    "\<forall>t' g. py_random g = t @ t' \<longrightarrow> random_shuffle (h r) g = (ys, g\<lparr>py_random := t'\<rparr>)"
    by blast
  then show ?thesis by (intro exI[of _ t]) (simp add: shuffle_at_def)
qed

lemma select_positive_py_random:
  assumes "select_positive s sh sp g = (r, g1)"
  shows "py_random g1 = py_random g"
  using assms
  by (auto simp: select_positive_def np_random_choice_def split: if_splits prod.splits list.splits)

lemma process_sample_heap_reaches:
  assumes ne: "negative_passages_ref s \<noteq> hard_negative_passages_ref s"
    and pos: "h (positive_passages_ref s) \<noteq> []"
    and qt: "qt \<noteq> Some ''[START_ENT]''"
    and n': "mset n' = mset (h (negative_passages_ref s))"
    and d': "mset d' = mset (h (hard_negative_passages_ref s))"
  shows "\<exists>t. \<forall>t' g a. py_random g = t @ t' \<longrightarrow>
           (\<exists>a' g'. process_sample_heap tz it nh no True sp fb qt s a h g
                       = (Inr a', h(negative_passages_ref s := n',
                                    hard_negative_passages_ref s := d'), g')
                     \<and> py_random g' = t')"
proof -
  let ?n = "negative_passages_ref s" and ?d = "hard_negative_passages_ref s"
  let ?h1 = "h(?n := n')"
  from shuffle_at_reaches[where h = h and r = ?n and ys = n', OF n'] obtain t1 where
    t1: "\<And>t' g. py_random g = t1 @ t' \<Longrightarrow> shuffle_at ?n h g = (?h1, g\<lparr>py_random := t'\<rparr>)"
    by blast
  have "mset d' = mset (?h1 ?d)" using d' ne by simp
  from shuffle_at_reaches[where h = ?h1 and r = ?d and ys = d', OF this] obtain t2 where
    t2: "\<And>t' g. py_random g = t2 @ t' \<Longrightarrow>
            shuffle_at ?d ?h1 g = (?h1(?d := d'), g\<lparr>py_random := t'\<rparr>)"
    by blast
  have "\<exists>a' g'. process_sample_heap tz it nh no True sp fb qt s a h g
                   = (Inr a', ?h1(?d := d'), g') \<and> py_random g' = t'"
    if g: "py_random g = (t1 @ t2) @ t'" for t' g a
  proof -
    have "positive_passages (load h s) \<noteq> []" using pos by (simp add: load_def)
    from select_positive_total[OF this, of True sp g] obtain p g1 where
      sel: "select_positive (load h s) True sp g = (Inr p, g1)" by blast
    from select_positive_py_random[OF sel] g
    have g1: "py_random g1 = t1 @ (t2 @ t')" by simp
    let ?g2 = "g1\<lparr>py_random := t2 @ t'\<rparr>"
    let ?g3 = "?g2\<lparr>py_random := t'\<rparr>"
    have s1: "shuffle_at ?n h g1 = (?h1, ?g2)" by (rule t1[OF g1])
    have s2: "shuffle_at ?d ?h1 ?g2 = (?h1(?d := d'), ?g3)" by (rule t2) simp
    obtain neg hard where
      sc: "sample_ctxs_heap s nh no True sp fb h g = (Inr (p, neg, hard), ?h1(?d := d'), ?g3)"
      using sel s1 s2 by (simp add: sample_ctxs_heap_def Let_def)
    from encode_question_total[OF qt, of "query_obj s" tz "append_ctxs tz it a p neg hard" ?g3]
    obtain a' where
      "encode_question (query_obj s) tz qt (append_ctxs tz it a p neg hard) ?g3 = (Inr a', ?g3)"
      by blast
    with sc have "process_sample_heap tz it nh no True sp fb qt s a h g
                    = (Inr a', ?h1(?d := d'), ?g3)"
      by (simp add: process_sample_heap_def)
    then show ?thesis by auto
  qed
  then show ?thesis by blast
qed

lemma process_samples_heap_reaches:
  assumes "distinct (pool_refs ss)"
    and "list_all (\<lambda>s. h (positive_passages_ref s) \<noteq> []) ss"
    and qt: "qt \<noteq> Some ''[START_ENT]''"
    and "\<forall>a. mset (ht a) = mset (h a)"
    and "\<forall>a. a \<notin> set (pool_refs ss) \<longrightarrow> ht a = h a"
  shows "\<exists>t. \<forall>t' g a. py_random g = t @ t' \<longrightarrow>
           (\<exists>a' g'. process_samples_heap tz it nh no True sp fb qt ss a h g = (Inr a', ht, g')
                     \<and> py_random g' = t')"
  using assms(1,2,4,5)
proof (induction ss arbitrary: h)
  case Nil
  then have "ht = h" by (auto simp: pool_refs_def)
  then show ?case by (intro exI[of _ "[]"]) simp
next
  case (Cons s ss)
  let ?n = "negative_passages_ref s" and ?d = "hard_negative_passages_ref s"
  let ?h1 = "h(?n := ht ?n, ?d := ht ?d)"
  from Cons.prems(1) have ne: "?n \<noteq> ?d"
    and out: "?n \<notin> set (pool_refs ss)" "?d \<notin> set (pool_refs ss)"
    and dist: "distinct (pool_refs ss)"
    by (auto simp: pool_refs_def)
  from Cons.prems(2) have pos: "h (positive_passages_ref s) \<noteq> []"
    and poss: "list_all (\<lambda>s. h (positive_passages_ref s) \<noteq> []) ss" by simp_all
  have mn: "mset (ht ?n) = mset (h ?n)" and md: "mset (ht ?d) = mset (h ?d)"
    using Cons.prems(3) by simp_all
  from process_sample_heap_reaches[where s = s and h = h and qt = qt and n' = "ht ?n"
      and d' = "ht ?d" and tz = tz and it = it and nh = nh and no = no and sp = sp and fb = fb,
      OF ne pos qt mn md]
  obtain t1 where t1:
    "\<And>t' g a. py_random g = t1 @ t' \<Longrightarrow>
       \<exists>a' g'. process_sample_heap tz it nh no True sp fb qt s a h g = (Inr a', ?h1, g')
               \<and> py_random g' = t'"
    by blast
  have m1: "\<forall>a. mset (ht a) = mset (?h1 a)" using Cons.prems(3) by simp
  have f1: "\<forall>a. a \<notin> set (pool_refs ss) \<longrightarrow> ht a = ?h1 a"
    using Cons.prems(4) by (auto simp: pool_refs_def)
  have p1: "list_all (\<lambda>s. ?h1 (positive_passages_ref s) \<noteq> []) ss"
    unfolding list_all_iff
  proof
    fix x assume "x \<in> set ss"
    with poss have "h (positive_passages_ref x) \<noteq> []" by (simp add: list_all_iff)
    moreover have "mset (?h1 (positive_passages_ref x)) = mset (h (positive_passages_ref x))"
      using m1 Cons.prems(3) by metis
    ultimately show "?h1 (positive_passages_ref x) \<noteq> []" by (metis mset_zero_iff)
  qed
  from Cons.IH[OF dist p1 m1 f1] obtain t2 where t2:
    "\<And>t' g a. py_random g = t2 @ t' \<Longrightarrow>
       \<exists>a' g'. process_samples_heap tz it nh no True sp fb qt ss a ?h1 g = (Inr a', ht, g')
               \<and> py_random g' = t'"
    by blast
  have "\<exists>a' g'. process_samples_heap tz it nh no True sp fb qt (s # ss) a h g = (Inr a', ht, g')
               \<and> py_random g' = t'"
    if g: "py_random g = (t1 @ t2) @ t'" for t' g a
  proof -
    from g have "py_random g = t1 @ (t2 @ t')" by simp
    from t1[OF this, of a] obtain a1 g1 where
      st: "process_sample_heap tz it nh no True sp fb qt s a h g = (Inr a1, ?h1, g1)"
      and g1: "py_random g1 = t2 @ t'" by blast
    from t2[OF g1, of a1] obtain a2 g2 where
      "process_samples_heap tz it nh no True sp fb qt ss a1 ?h1 g1 = (Inr a2, ht, g2)"
      and "py_random g2 = t'" by blast
    with st show ?thesis by simp
  qed
  then show ?case by blast
qed

lemma create_biencoder_input_heap_reaches:
  assumes "distinct (pool_refs ss)"
    and "list_all (\<lambda>s. h (positive_passages_ref s) \<noteq> []) ss"
    and "qt \<noteq> Some ''[START_ENT]''"
    and "\<forall>a. mset (ht a) = mset (h a)"
    and "\<forall>a. a \<notin> set (pool_refs ss) \<longrightarrow> ht a = h a"
  shows "\<exists>t. \<forall>g. py_random g = t \<longrightarrow>
           (\<exists>r g'. create_biencoder_input_heap ss tz it nh no True sp fb qt h g = (r, ht, g'))"
proof -
  from process_samples_heap_reaches[where ss = ss and h = h and qt = qt and ht = ht
      and tz = tz and it = it and nh = nh and no = no and sp = sp and fb = fb, OF assms]
  obtain t where
    t: "\<And>t' g a. py_random g = t @ t' \<Longrightarrow>
          \<exists>a' g'. process_samples_heap tz it nh no True sp fb qt ss a h g = (Inr a', ht, g')
                  \<and> py_random g' = t'"
    by blast
  have "\<exists>r g'. create_biencoder_input_heap ss tz it nh no True sp fb qt h g = (r, ht, g')"
    if "py_random g = t" for g
  proof -
    from that have "py_random g = t @ []" by simp
    from t[OF this, of empty_acc] obtain a' g' where
      "process_samples_heap tz it nh no True sp fb qt ss empty_acc h g = (Inr a', ht, g')"
      by blast
    then show ?thesis by (simp add: create_biencoder_input_heap_def)
  qed
  then show ?thesis by blast
qed

subsection \<open>Without aliasing, the heap run is the run on values\<close>

lemma sample_ctxs_heap_value:
  assumes "distinct [positive_passages_ref s, negative_passages_ref s,
                     hard_negative_passages_ref s]"
    and "sample_ctxs_heap s nh no sh sp fb h g = (r, h', g')"
  shows "sample_ctxs (load h s) nh no sh sp fb g = (r, load h' s, g')"
proof (cases "select_positive (load h s) sh sp g")
  case (Pair r0 g1)
  show ?thesis
  proof (cases r0)
    case (Inl e)
    with assms Pair show ?thesis by (simp add: sample_ctxs_heap_def sample_ctxs_def)
  next
    case (Inr p)
    show ?thesis
    proof (cases sh)
      case False
      with assms Pair Inr show ?thesis
        by (auto simp: sample_ctxs_heap_def sample_ctxs_def Let_def load_def)
    next
      case True
      let ?n = "negative_passages_ref s" and ?d = "hard_negative_passages_ref s"
      obtain ys g2 where s1: "random_shuffle (h ?n) g1 = (ys, g2)"
        by (cases "random_shuffle (h ?n) g1")
      obtain zs g3 where s2: "random_shuffle (h ?d) g2 = (zs, g3)"
        by (cases "random_shuffle (h ?d) g2")
      have nd: "?n \<noteq> ?d" using assms(1) by simp
      have heap: "sample_ctxs_heap s nh no sh sp fb h g
                    = (Inr (p, py_slice_to ys no,
                            py_slice_to (if fb \<and> length zs = 0 then py_slice_to ys nh else zs) nh),
                       h(?n := ys, ?d := zs), g3)"
        using Pair Inr True s1 s2 nd
        by (simp add: sample_ctxs_heap_def shuffle_at_def Let_def)
      have val: "sample_ctxs (load h s) nh no sh sp fb g
                   = (Inr (p, py_slice_to ys no,
                           py_slice_to (if fb \<and> length zs = 0 then py_slice_to ys nh else zs) nh),
                      (load h s)\<lparr>negative_passages := ys, hard_negative_passages := zs\<rparr>, g3)"
        using Pair Inr True s1 s2
        by (simp add: sample_ctxs_def Let_def load_def)
      have "(load h s)\<lparr>negative_passages := ys, hard_negative_passages := zs\<rparr>
              = load (h(?n := ys, ?d := zs)) s"
        using assms(1) by (simp add: load_def)
      with heap val assms(2) show ?thesis by simp
    qed
  qed
qed

lemma process_sample_heap_value:
  assumes "distinct [positive_passages_ref s, negative_passages_ref s,
                     hard_negative_passages_ref s]"
    and "process_sample_heap tz it nh no sh sp fb qt s a h g = (r, h', g')"
  shows "process_sample tz it nh no sh sp fb qt (load h s) a g = (r, load h' s, g')"
proof (cases "sample_ctxs_heap s nh no sh sp fb h g")
  case (fields r1 h1 g1)
  from sample_ctxs_heap_value[OF assms(1) fields]
  have v: "sample_ctxs (load h s) nh no sh sp fb g = (r1, load h1 s, g1)" .
  have q: "query (load h1 s) = query_obj s" by (simp add: load_def)
  show ?thesis
    using assms(2) fields v q
    by (auto simp: process_sample_heap_def process_sample_def split: sum.splits prod.splits)
qed

lemma load_frame:
  assumes "\<forall>a. a \<notin> R \<longrightarrow> h' a = h a"
    and "positive_passages_ref s \<notin> R" "negative_passages_ref s \<notin> R"
        "hard_negative_passages_ref s \<notin> R"
  shows "load h' s = load h s"
  using assms by (simp add: load_def)

lemma process_samples_heap_value:
  assumes "distinct (list_refs ss)"
    and "process_samples_heap tz it nh no sh sp fb qt ss a h g = (r, h', g')"
  shows "process_samples tz it nh no sh sp fb qt (map (load h) ss) a g
           = (r, map (load h') ss, g')"
  using assms
proof (induction ss arbitrary: a h g)
  case Nil
  then show ?case by simp
next
  case (Cons s ss)
  let ?R = "{negative_passages_ref s, hard_negative_passages_ref s}"
  from Cons.prems(1) have
    ds: "distinct [positive_passages_ref s, negative_passages_ref s,
                   hard_negative_passages_ref s]" and
    dss: "distinct (list_refs ss)" and
    disj: "set [positive_passages_ref s, negative_passages_ref s,
                hard_negative_passages_ref s] \<inter> set (list_refs ss) = {}"
    by (auto simp: list_refs_def)
  obtain r1 h1 g1 where st: "process_sample_heap tz it nh no sh sp fb qt s a h g = (r1, h1, g1)"
    by (cases "process_sample_heap tz it nh no sh sp fb qt s a h g")
  note v1 = process_sample_heap_value[OF ds st]
  have fr1: "\<forall>a. a \<notin> ?R \<longrightarrow> h1 a = h a"
    using process_sample_heap_frame[OF st] by simp
  have rest_same: "map (load h1) ss = map (load h) ss"
  proof (rule map_cong[OF refl])
    fix x assume x: "x \<in> set ss"
    then have "set [positive_passages_ref x, negative_passages_ref x,
                    hard_negative_passages_ref x] \<subseteq> set (list_refs ss)"
      by (auto simp: list_refs_def)
    with disj have "positive_passages_ref x \<notin> ?R" "negative_passages_ref x \<notin> ?R"
        "hard_negative_passages_ref x \<notin> ?R" by auto
    then show "load h1 x = load h x" by (rule load_frame[OF fr1])
  qed
  show ?case
  proof (cases r1)
    case (Inl e)
    with Cons.prems(2) st have "r = Inl e" "h' = h1" "g' = g1" by simp_all
    with v1 Inl rest_same show ?thesis by simp
  next
    case (Inr a1)
    with Cons.prems(2) st have
      rest: "process_samples_heap tz it nh no sh sp fb qt ss a1 h1 g1 = (r, h', g')" by simp
    from Cons.IH[OF dss rest] rest_same have
      v2: "process_samples tz it nh no sh sp fb qt (map (load h) ss) a1 g1
             = (r, map (load h') ss, g')" by simp
    have fr2: "\<forall>a. a \<notin> set (pool_refs ss) \<longrightarrow> h' a = h1 a"
      using process_samples_heap_frame[OF rest] by simp
    have sub: "set (pool_refs ss) \<subseteq> set (list_refs ss)"
      by (auto simp: pool_refs_def list_refs_def)
    have "load h' s = load h1 s"
      by (rule load_frame[OF fr2]) (use disj sub in auto)
    with v1 v2 Inr show ?thesis by simp
  qed
qed

lemma create_biencoder_input_heap_value:
  assumes "distinct (list_refs ss)"
    and "create_biencoder_input_heap ss tz it nh no sh sp fb qt h g = (r, h', g')"
  shows "create_biencoder_input (map (load h) ss) tz it nh no sh sp fb qt g
           = (r, map (load h') ss, g')"
proof -
  obtain r1 h1 g1 where
    ps: "process_samples_heap tz it nh no sh sp fb qt ss empty_acc h g = (r1, h1, g1)"
    by (cases "process_samples_heap tz it nh no sh sp fb qt ss empty_acc h g")
  from process_samples_heap_value[OF assms(1) ps]
  have v: "process_samples tz it nh no sh sp fb qt (map (load h) ss) empty_acc g
             = (r1, map (load h1) ss, g1)" .
  show ?thesis
    using assms(2) ps v
    by (cases r1) (auto simp: create_biencoder_input_heap_def create_biencoder_input_def)
qed

section \<open>The shuffles work in place\<close>

text \<open>
  Claim C10. With \<open>shuffle\<close> set, whatever the call returns or raises: every passage list
  of the caller holds the passages it held, so that no passage is lost, added or altered;
  only the other-negative and hard-negative lists of the samples can have changed, so that a
  sample whose positive list is not also a negative pool keeps its query and its positive
  passages and has its two pools permuted. And the pools are indeed reordered in the lists of
  the caller: when the pools are different list objects, every sample has a positive passage
  and the call is not in span-selection mode, every choice of an order for each pool is what
  the call leaves behind for some state of Python's random generator.
\<close>

theorem shuffle_permutes_pools_in_place:
  "(\<forall>r h' g'.
      create_biencoder_input_heap samples tz it nh no True sp fb qt h g = (r, h', g') \<longrightarrow>
        (\<forall>a. mset (h' a) = mset (h a))
        \<and> (\<forall>a. a \<notin> set (pool_refs samples) \<longrightarrow> h' a = h a)
        \<and> (\<forall>s\<in>set samples. positive_passages_ref s \<notin> set (pool_refs samples)
               \<longrightarrow> same_up_to_pool_order (load h s) (load h' s)))
   \<and> (distinct (pool_refs samples)
       \<and> list_all (\<lambda>s. h (positive_passages_ref s) \<noteq> []) samples
       \<and> qt \<noteq> Some ''[START_ENT]''
       \<and> (\<forall>a. mset (ht a) = mset (h a))
       \<and> (\<forall>a. a \<notin> set (pool_refs samples) \<longrightarrow> ht a = h a)
       \<longrightarrow> (\<exists>t. \<forall>g0. py_random g0 = t \<longrightarrow>
              (\<exists>r g'. create_biencoder_input_heap samples tz it nh no True sp fb qt h g0
                         = (r, ht, g'))))"
proof (intro conjI allI impI ballI)
  fix r h' g'
  assume run: "create_biencoder_input_heap samples tz it nh no True sp fb qt h g = (r, h', g')"
  note fr = create_biencoder_input_heap_frame[OF run]
  show "mset (h' a) = mset (h a)" for a using fr by simp
  show "h' a = h a" if "a \<notin> set (pool_refs samples)" for a using fr that by simp
  fix s assume "s \<in> set samples" "positive_passages_ref s \<notin> set (pool_refs samples)"
  with fr show "same_up_to_pool_order (load h s) (load h' s)"
    by (simp add: same_up_to_pool_order_def load_def)
next
  assume "distinct (pool_refs samples)
       \<and> list_all (\<lambda>s. h (positive_passages_ref s) \<noteq> []) samples
       \<and> qt \<noteq> Some ''[START_ENT]''
       \<and> (\<forall>a. mset (ht a) = mset (h a))
       \<and> (\<forall>a. a \<notin> set (pool_refs samples) \<longrightarrow> ht a = h a)"
  then show "\<exists>t. \<forall>g0. py_random g0 = t \<longrightarrow>
              (\<exists>r g'. create_biencoder_input_heap samples tz it nh no True sp fb qt h g0
                         = (r, ht, g'))"
    by (intro create_biencoder_input_heap_reaches) simp_all
qed

theorem shuffle_permutes_pools_in_place_witness:
  "fst (create_biencoder_input_heap example_objects example_tensorizer False 1 1 True False True
          None example_heap example_rng) = Inr example_batch
   \<and> map (fst (snd (create_biencoder_input_heap example_objects example_tensorizer False 1 1 True
                      False True None example_heap example_rng))) [0, 1, 2, 3, 4, 5]
       = [[psg ''a''], [psg ''c'', psg ''b''], [psg ''d''], [psg ''e''], [psg ''g'', psg ''f''], []]
   \<and> map example_heap [0, 1, 2, 3, 4, 5]
       = [[psg ''a''], [psg ''b'', psg ''c''], [psg ''d''], [psg ''e''], [psg ''f'', psg ''g''], []]
   \<and> mset (fst (snd (create_biencoder_input_heap example_objects example_tensorizer False 1 1
                       True False True None example_heap example_rng)) 1)
       = mset (example_heap 1)
   \<and> fst (snd (create_biencoder_input_heap example_objects example_tensorizer False 1 1 True
                 False True None example_heap example_rng)) 0 = example_heap 0
   \<and> same_up_to_pool_order (load example_heap (example_objects ! 0))
        (load (fst (snd (create_biencoder_input_heap example_objects example_tensorizer False 1 1
                           True False True None example_heap example_rng))) (example_objects ! 0))
   \<and> (\<exists>g0 r g'. create_biencoder_input_heap example_objects example_tensorizer False 1 1 True
                    False True None example_heap g0 = (r, example_target, g'))"
proof -
  let ?X = "create_biencoder_input_heap example_objects example_tensorizer False 1 1 True False
              True None example_heap example_rng"
  note inst = shuffle_permutes_pools_in_place[where samples = example_objects
      and tz = example_tensorizer and it = False and nh = 1 and no = 1 and sp = False
      and fb = True and qt = None and h = example_heap and g = example_rng
      and ht = example_target]
  have run: "?X = (fst ?X, fst (snd ?X), snd (snd ?X))" by simp
  have res: "fst ?X = Inr example_batch" by code_simp
  have after: "map (fst (snd ?X)) [0, 1, 2, 3, 4, 5]
       = [[psg ''a''], [psg ''c'', psg ''b''], [psg ''d''], [psg ''e''], [psg ''g'', psg ''f''], []]"
    by code_simp
  have before: "map example_heap [0, 1, 2, 3, 4, 5]
       = [[psg ''a''], [psg ''b'', psg ''c''], [psg ''d''], [psg ''e''], [psg ''f'', psg ''g''], []]"
    by code_simp
  have refs: "pool_refs example_objects = [1, 2, 4, 5]"
    by (simp add: pool_refs_def example_objects_def)
  have zero: "(0::nat) \<notin> set (pool_refs example_objects)" unfolding refs by simp
  have first: "example_objects ! 0 \<in> set example_objects
               \<and> positive_passages_ref (example_objects ! 0) \<notin> set (pool_refs example_objects)"
    unfolding refs by (simp add: example_objects_def)
  from inst run zero first have part:
    "mset (fst (snd ?X) 1) = mset (example_heap 1)
     \<and> fst (snd ?X) 0 = example_heap 0
     \<and> same_up_to_pool_order (load example_heap (example_objects ! 0))
          (load (fst (snd ?X)) (example_objects ! 0))"
    by blast
  have pre: "distinct (pool_refs example_objects)
       \<and> list_all (\<lambda>s. example_heap (positive_passages_ref s) \<noteq> []) example_objects
       \<and> None \<noteq> Some ''[START_ENT]''
       \<and> (\<forall>a. mset (example_target a) = mset (example_heap a))
       \<and> (\<forall>a. a \<notin> set (pool_refs example_objects) \<longrightarrow> example_target a = example_heap a)"
    unfolding refs
    by (simp add: example_objects_def example_heap_def example_target_def)
  from inst pre obtain t where
    "\<forall>g0. py_random g0 = t \<longrightarrow>
       (\<exists>r g'. create_biencoder_input_heap example_objects example_tensorizer False 1 1 True
                  False True None example_heap g0 = (r, example_target, g'))"
    by blast
  then have "\<exists>r g'. create_biencoder_input_heap example_objects example_tensorizer False 1 1 True
                  False True None example_heap \<lparr>np_random = [], py_random = t, rnd = []\<rparr>
                = (r, example_target, g')"
    by simp
  then have reach: "\<exists>g0 r g'. create_biencoder_input_heap example_objects example_tensorizer
                       False 1 1 True False True None example_heap g0 = (r, example_target, g')"
    by blast
  from res after before part reach show ?thesis by blast
qed

section \<open>The hard-negative fallback\<close>

text \<open>
  Claim C4. For a sample with an empty hard-negative pool and at least one positive passage,
  with \<open>hard_neg_fallback\<close> set and a count \<open>num_hard_negatives\<close> that is not negative,
  the hard negatives selected are the first \<open>num_hard_negatives\<close> passages of the other-negative
  pool as the call leaves it (shuffled or not), and there are
  \<open>min(num_hard_negatives, len(other_negatives))\<close> of them.
\<close>

theorem fallback_fills_hard_negatives:
  assumes "hard_negative_passages s = []" and "positive_passages s \<noteq> []" and "0 \<le> nh"
  shows "\<exists>p neg hard s' g'.
           sample_ctxs s nh no sh sp True g = (Inr (p, neg, hard), s', g')
           \<and> mset (negative_passages s') = mset (negative_passages s)
           \<and> hard = take (nat nh) (negative_passages s')
           \<and> int (length hard) = min nh (int (length (negative_passages s)))"
proof -
  from select_positive_total[OF assms(2)] obtain p g1 where
    sel: "select_positive s sh sp g = (Inr p, g1)" by blast
  obtain r s' g' where sc: "sample_ctxs s nh no sh sp True g = (r, s', g')"
    by (cases "sample_ctxs s nh no sh sp True g")
  from sc sel obtain neg hard where r: "r = Inr (p, neg, hard)"
    by (auto simp: sample_ctxs_def Let_def split: prod.splits)
  note pools = sample_ctxs_pools[OF sc]
  then have "hard_negative_passages s' = []" using assms(1) by simp
  with sample_ctxs_slices[OF sc[unfolded r]] assms(3)
  have h: "hard = take (nat nh) (negative_passages s')"
    by (simp add: py_slice_to_def)
  have "length (negative_passages s') = length (negative_passages s)"
    using pools by (metis size_mset)
  with h assms(3) have "int (length hard) = min nh (int (length (negative_passages s)))"
    by simp
  with sc r pools h show ?thesis by blast
qed

theorem fallback_fills_hard_negatives_witness:
  "hard_negative_passages example_fallback_sample = []
   \<and> positive_passages example_fallback_sample \<noteq> []
   \<and> sample_ctxs example_fallback_sample 1 1 True False True example_rng
       = (Inr (psg ''e'', [psg ''g''], [psg ''g'']),
          example_fallback_sample\<lparr>negative_passages := [psg ''g'', psg ''f'']\<rparr>,
          example_rng\<lparr>py_random := [0, 1]\<rparr>)
   \<and> (\<exists>p neg hard s' g'.
         sample_ctxs example_fallback_sample 1 1 True False True example_rng
           = (Inr (p, neg, hard), s', g')
         \<and> mset (negative_passages s') = mset (negative_passages example_fallback_sample)
         \<and> hard = take (nat 1) (negative_passages s')
         \<and> int (length hard) = min 1 (int (length (negative_passages example_fallback_sample))))"
proof -
  have h: "hard_negative_passages example_fallback_sample = []"
    by (simp add: example_fallback_sample_def)
  have p: "positive_passages example_fallback_sample \<noteq> []"
    by (simp add: example_fallback_sample_def)
  have run: "sample_ctxs example_fallback_sample 1 1 True False True example_rng
       = (Inr (psg ''e'', [psg ''g''], [psg ''g'']),
          example_fallback_sample\<lparr>negative_passages := [psg ''g'', psg ''f'']\<rparr>,
          example_rng\<lparr>py_random := [0, 1]\<rparr>)"
    by code_simp
  from fallback_fills_hard_negatives[OF h p, of 1 1 True False example_rng] h p run
  show ?thesis by simp
qed

section \<open>Runs without shuffling are deterministic\<close>

text \<open>
  Claim C5. With \<open>shuffle\<close> unset the samples are left as they were, and a batch returned
  by one call is the batch returned by every call on the same arguments, whatever the state of
  the random sources: the tensors and both index lists are the same. Unless the query token is
  \<open>[START_ENT]\<close>, the call does not touch the random sources and its whole outcome, an
  exception included, does not depend on them.
\<close>

theorem unshuffled_batch_is_deterministic:
  assumes "create_biencoder_input samples tz it nh no False sp fb qt g = (r, samples', g')"
  shows "samples' = samples
         \<and> (\<forall>b g2. r = Inr b \<longrightarrow>
               fst (create_biencoder_input samples tz it nh no False sp fb qt g2) = Inr b)
         \<and> (qt \<noteq> Some ''[START_ENT]'' \<longrightarrow>
               g' = g \<and> (\<forall>g2. create_biencoder_input samples tz it nh no False sp fb qt g2
                                 = (r, samples, g2)))"
proof -
  obtain r1 where ps: "process_samples tz it nh no False sp fb qt samples empty_acc g = (r1, samples', g')"
    using assms by (auto simp: create_biencoder_input_def split: prod.splits sum.splits)
  have same: "samples' = samples" by (rule sample_pools_unshuffled[OF ps])
  have pure: "g' = g \<and> (\<forall>g2. create_biencoder_input samples tz it nh no False sp fb qt g2
                                 = (r, samples, g2))"
    if "qt \<noteq> Some ''[START_ENT]''"
    using create_unshuffled[OF that, of samples tz it nh no sp fb _ g] assms
    by (metis fst_conv snd_conv)
  have det: "fst (create_biencoder_input samples tz it nh no False sp fb qt g2) = Inr b"
    if "r = Inr b" for b g2
  proof (cases "qt = Some ''[START_ENT]''")
    case True
    with assms that span_mode_never_returns[of samples tz it nh no False sp fb g b]
    show ?thesis by simp
  next
    case False
    from pure[OF False] that show ?thesis by simp
  qed
  from same pure det show ?thesis by blast
qed

theorem unshuffled_batch_is_deterministic_witness:
  "create_biencoder_input [example_single] example_tensorizer False 1 1 False False True None
     example_rng = (Inr example_single_batch, [example_single], example_rng)
   \<and> fst (create_biencoder_input [example_single] example_tensorizer False 1 1 False False True
            None \<lparr>np_random = [5], py_random = [9, 4], rnd = [3]\<rparr>)
       = Inr example_single_batch"
proof -
  have run: "create_biencoder_input [example_single] example_tensorizer False 1 1 False False
               True None example_rng
             = (Inr example_single_batch, [example_single], example_rng)"
    by code_simp
  from unshuffled_batch_is_deterministic[OF run] run show ?thesis by blast
qed

section \<open>The recorded hard-negative indices\<close>

text \<open>
  The indices recorded for a sample start right after its positive, where the other negatives
  are: they point at the first \<open>len(hard_neg_ctxs)\<close> of the other negatives followed by the
  hard negatives.
\<close>

lemma recorded_hard_indices_rows:
  "map (\<lambda>k. ctx_tensors (append_ctxs tz it a p neg hard) ! k)
       (last (hard_neg_ctx_indices (append_ctxs tz it a p neg hard)))
   = take (length hard) (map (\<lambda>c. fst (ctx_to_tensor tz it c)) (neg @ hard))"
proof -
  let ?T = "\<lambda>c. fst (ctx_to_tensor tz it c)"
  let ?c = "length (ctx_tensors a)"
  have rows: "ctx_tensors (append_ctxs tz it a p neg hard)
                = ctx_tensors a @ ?T p # map ?T (neg @ hard)"
    by (simp add: append_ctxs_ctx_tensors)
  have idx: "last (hard_neg_ctx_indices (append_ctxs tz it a p neg hard))
               = map (\<lambda>k. k + (?c + 1)) [0..<length hard]"
    unfolding append_ctxs_hard map_add_upt by (simp add: add.commute)
  have "map (\<lambda>k. (ctx_tensors a @ ?T p # map ?T (neg @ hard)) ! k)
            (map (\<lambda>k. k + (?c + 1)) [0..<length hard])
        = map (\<lambda>k. map ?T (neg @ hard) ! k) [0..<length hard]"
    by (simp add: nth_append comp_def)
  also have "\<dots> = take (length hard) (map ?T (neg @ hard))"
    by (rule map_nth_upt_take) simp
  finally show ?thesis by (simp only: rows idx)
qed

text \<open>
  Claim C1 says that the hard-negative indices recorded for a sample are the batch positions of
  its hard negatives. For one sample with the positive \<open>a\<close>, the other negative \<open>b\<close> and
  the hard negative \<open>d\<close>, one of each kept, the batch rows are \<open>a\<close>, \<open>b\<close>, \<open>d\<close> and the
  recorded index is 1, the row of \<open>b\<close>; the hard negative is row 2.
\<close>

theorem hard_negative_indices_miss_hard_negatives:
  "create_biencoder_input [example_single] example_tensorizer False 1 1 False False True None
     example_rng = (Inr example_single_batch, [example_single], example_rng)
   \<and> hard_negatives example_single_batch = [[1]]
   \<and> context_ids example_single_batch = Tensor [3, 1] [97, 98, 100]
   \<and> fst (ctx_to_tensor example_tensorizer False (psg ''b'')) = Tensor [1] [98]
   \<and> fst (ctx_to_tensor example_tensorizer False (psg ''d'')) = Tensor [1] [100]"
  by code_simp

section \<open>A query without the marker\<close>

text \<open>
  Claim C9 says that a query whose untruncated tensor does not hold the marker makes
  \<open>_select_span_with_token\<close> raise an error whose message holds the query text. For the query
  \<open>who\<close>, whose three tokens do not hold the marker 99, line 443 raises the \<open>RuntimeError\<close> of
  the truth value of a tensor; for the one-token query \<open>w\<close> line 445 raises an
  \<open>AttributeError\<close>. Neither message holds the query text, and the \<open>RuntimeError\<close> of line 468
  is never raised.
\<close>

theorem missing_marker_error_lacks_query_text:
  "99 \<notin> set (elems (fst (text_to_tensor example_tensorizer ''who'' None None None False)))
   \<and> select_span_with_token ''who'' example_tensorizer ''[START_ENT]'' example_rng
       = (Inl (RuntimeError ''Boolean value of Tensor with more than one value is ambiguous''),
          example_rng)
   \<and> 99 \<notin> set (elems (fst (text_to_tensor example_tensorizer ''w'' None None None False)))
   \<and> select_span_with_token ''w'' example_tensorizer ''[START_ENT]'' example_rng
       = (Inl AttributeError, example_rng)"
  by code_simp


section \<open>A marker outside the truncated query\<close>

text \<open>
  Claim C7 says that a query whose untruncated tensor holds the marker, while the truncated one
  does not, gets a span of length \<open>max_length\<close> that holds the marker, starts with CLS and
  ends with SEP. For a marker at position 150 of 200 tokens and \<open>max_length = 100\<close>, line 443
  raises a \<open>RuntimeError\<close> before any position is searched or any span is cut.
\<close>

theorem span_selection_raises_on_tuple:
  "elems (fst (text_to_tensor span_tensorizer ''q'' None None None False)) ! 150 = 99
   \<and> length (elems (fst (text_to_tensor span_tensorizer ''q'' None None None False))) = 200
   \<and> 99 \<notin> set (elems (fst (text_to_tensor span_tensorizer ''q'' None None None True)))
   \<and> select_span_with_token ''q'' span_tensorizer ''[START_ENT]'' example_rng
       = (Inl (RuntimeError ''Boolean value of Tensor with more than one value is ambiguous''),
          example_rng)"
  by code_simp


section \<open>Score matrices\<close>

lemma expand_same: "length xs = n \<Longrightarrow> expand n xs = xs"
  by (simp add: expand_def)

lemma broadcast_dim_same: "broadcast_dim n n = Some n"
  by (simp add: broadcast_dim_def)

lemma dot_product_scores_shape:
  assumes "dot_product_scores q c = Inr s"
  shows "ncols s = nrows c \<and> nrows s = nrows q
         \<and> list_all (\<lambda>r. length r = nrows c) (rows s)"
  using assms
  by (auto simp: dot_product_scores_def nrows_def list_all_iff split: if_splits)

lemma dot_product_scores_entry:
  assumes "dot_product_scores q c = Inr s" and "i < nrows q" and "j < nrows c"
  shows "rows s ! i ! j = dot (rows q ! i) (rows c ! j)"
  using assms
  by (auto simp: dot_product_scores_def nrows_def split: if_splits)

section \<open>The entity-augmented score\<close>

text \<open>
  Claim C6. For query and passage vectors of one width, query-entity and passage-entity vectors
  of one width, and as many entity vectors as there are queries and passages,
  \<open>BiEncoderEntLoss.get_scores\<close> returns the \<open>n_queries\<close> by \<open>n_passages\<close> matrix whose entry
  \<open>(i, j)\<close> is the sum of the entries \<open>(i, j)\<close> of the two dot-product score matrices, that
  is, the dot product of query \<open>i\<close> and passage \<open>j\<close> plus the dot product of their entity
  vectors.
\<close>

theorem entity_scores_are_sum:
  assumes "ncols q = ncols c" and "ncols qe = ncols ce"
    and "nrows qe = nrows q" and "nrows ce = nrows c"
  shows "\<exists>s a b. BiEncoderEntLoss_get_scores q c qe ce = Inr s
           \<and> dot_product_scores q c = Inr a \<and> dot_product_scores qe ce = Inr b
           \<and> ncols s = nrows c \<and> nrows s = nrows q
           \<and> (\<forall>i<nrows q. \<forall>j<nrows c.
                 rows s ! i ! j = rows a ! i ! j + rows b ! i ! j
                 \<and> rows s ! i ! j = dot (rows q ! i) (rows c ! j) + dot (rows qe ! i) (rows ce ! j))"
proof -
  obtain a where a: "dot_product_scores q c = Inr a"
    using assms(1) by (simp add: dot_product_scores_def)
  obtain b where b: "dot_product_scores qe ce = Inr b"
    using assms(2) by (simp add: dot_product_scores_def)
  note sa = dot_product_scores_shape[OF a]
  note sb = dot_product_scores_shape[OF b]
  have ra: "length (rows a) = nrows q" "length (rows b) = nrows q"
    using sa sb assms(3) by (simp_all add: nrows_def)
  define s where "s = Matrix (nrows c) (map2 (map2 (+)) (rows a) (rows b))"
  have rowlen: "length (rows a ! i) = nrows c" "length (rows b ! i) = nrows c" if "i < nrows q" for i
    using sa sb ra that assms(4) by (simp_all add: list_all_length)
  have exp: "map2 (\<lambda>u v. map2 (+) (expand (nrows c) u) (expand (nrows c) v)) (rows a) (rows b)
               = map2 (map2 (+)) (rows a) (rows b)"
    using ra rowlen by (intro nth_equalityI) (simp_all add: expand_same)
  have s: "BiEncoderEntLoss_get_scores q c qe ce = Inr s"
    using a b sa sb assms(3,4) ra exp
    by (simp add: BiEncoderEntLoss_get_scores_def tensor_add_def broadcast_dim_same
                  expand_same nrows_def s_def)
  have entry: "rows s ! i ! j = rows a ! i ! j + rows b ! i ! j" if "i < nrows q" "j < nrows c" for i j
    using that ra rowlen[OF that(1)] by (simp add: s_def)
  have "rows s ! i ! j = dot (rows q ! i) (rows c ! j) + dot (rows qe ! i) (rows ce ! j)"
    if "i < nrows q" "j < nrows c" for i j
    using entry[OF that] dot_product_scores_entry[OF a that]
          dot_product_scores_entry[OF b, of i j] that assms(3,4) by simp
  with entry s a b ra show ?thesis
    by (intro exI[of _ s] exI[of _ a] exI[of _ b]) (simp add: s_def nrows_def)
qed

theorem entity_scores_are_sum_witness:
  "dot_product_scores (Matrix 2 [[1, 2], [3, 4 :: int]]) (Matrix 2 [[1, 0], [0, 1], [1, 1]])
     = Inr (Matrix 3 [[1, 2, 3], [3, 4, 7]])
   \<and> dot_product_scores (Matrix 1 [[5], [6 :: int]]) (Matrix 1 [[1], [2], [3]])
     = Inr (Matrix 3 [[5, 10, 15], [6, 12, 18]])
   \<and> BiEncoderEntLoss_get_scores (Matrix 2 [[1, 2], [3, 4 :: int]])
         (Matrix 2 [[1, 0], [0, 1], [1, 1]]) (Matrix 1 [[5], [6]]) (Matrix 1 [[1], [2], [3]])
     = Inr (Matrix 3 [[6, 12, 18], [9, 16, 25]])"
proof -
  let ?q = "Matrix 2 [[1, 2], [3, 4 :: int]]" and ?c = "Matrix 2 [[1, 0], [0, 1], [1, 1 :: int]]"
  let ?qe = "Matrix 1 [[5], [6 :: int]]" and ?ce = "Matrix 1 [[1], [2], [3 :: int]]"
  have a: "dot_product_scores ?q ?c = Inr (Matrix 3 [[1, 2, 3], [3, 4, 7]])"
    by (simp add: dot_product_scores_def nrows_def dot_def)
  have b: "dot_product_scores ?qe ?ce = Inr (Matrix 3 [[5, 10, 15], [6, 12, 18]])"
    by (simp add: dot_product_scores_def nrows_def dot_def)
  have h: "ncols ?q = ncols ?c" "ncols ?qe = ncols ?ce" "nrows ?qe = nrows ?q"
      "nrows ?ce = nrows ?c"
    by (simp_all add: nrows_def)
  from entity_scores_are_sum[OF h] obtain s where
    s: "BiEncoderEntLoss_get_scores ?q ?c ?qe ?ce = Inr s"
    and shape: "ncols s = nrows ?c" "nrows s = nrows ?q"
    by blast
  have "BiEncoderEntLoss_get_scores ?q ?c ?qe ?ce = Inr (Matrix 3 [[6, 12, 18], [9, 16, 25]])"
    by (simp add: BiEncoderEntLoss_get_scores_def dot_product_scores_def tensor_add_def
                  broadcast_dim_def nrows_def expand_def dot_def)
  with a b s show ?thesis by simp
qed


section \<open>The cosine score\<close>

text \<open>
  Claim C8 says that \<open>cosine_scores\<close>, like \<open>dot_product_scores\<close>, maps \<open>n1\<close> query vectors
  and \<open>n2\<close> passage vectors to an \<open>n1\<close> by \<open>n2\<close> matrix. \<open>F.cosine_similarity\<close> with
  \<open>dim=1\<close> pairs row \<open>i\<close> with row \<open>i\<close>: two queries and three passages are refused, and
  two queries and two passages give two values, where the dot product gives a two by two
  matrix.
\<close>

theorem cosine_scores_is_not_pairwise:
  "cosine_scores (Matrix 2 [[1, 0], [0, 1]]) (Matrix 2 [[1, 0], [0, 1], [1, 1]])
     = Inl (RuntimeError ''cosine_similarity'')
   \<and> cosine_scores (Matrix 2 [[1, 0], [0, 1]]) (Matrix 2 [[0, 1], [1, 0]]) = Inr [0, 0]
   \<and> dot_product_scores (Matrix 2 [[1, 0], [0, 1 :: real]]) (Matrix 2 [[0, 1], [1, 0]])
     = Inr (Matrix 2 [[0, 1], [1, 0]])"
  by (simp add: cosine_scores_def F_cosine_similarity_def broadcast_dim_def nrows_def expand_def
                cosine_similarity_def dot_def dot_product_scores_def)


end
